theory Spec2Isabelle
  imports Complex_Main "HOL-Library.AList"
begin

section \<open>The indexing and aggregation pipeline of the token backend\<close>

text \<open>
  The development embeds the two workers of \<^verbatim>\<open>src/backend/src/workers/analytics.js\<close>:
  the blockchain indexer (\<^verbatim>\<open>indexLoop\<close>, \<^verbatim>\<open>processBlocks\<close>, \<^verbatim>\<open>processSwapEvent\<close>,
  \<^verbatim>\<open>processRateUpdateEvent\<close>) and the analytics worker (\<^verbatim>\<open>calculateMetrics\<close>,
  \<^verbatim>\<open>calculateLeaderboards\<close>, \<^verbatim>\<open>calculateLeaderboardForPeriod\<close>), together with the
  in-memory cache of \<^verbatim>\<open>src/backend/src/utils/redis.js\<close>.

  Conventions. The database tables are lists of rows in insertion order. Amounts that
  the source carries as decimal strings of on-chain unsigned integers are natural
  numbers (\<^verbatim>\<open>x.toString()\<close> and \<^verbatim>\<open>BigInt(s)\<close> are inverse on them). Instants are
  milliseconds since the epoch. Everything the process awaits from outside (the RPC
  node, the database being reachable, the clock) is an explicit input; a rejected
  promise or a thrown exception is a value of type \<open>error\<close>.
\<close>

subsection \<open>Errors, log lines and the cache\<close>

datatype error = RpcError | DbError | TypeError | RangeError

datatype log_line =
    Info string
  | InfoN string "int list"
  | Warn string
  | Error string error

text \<open>
  The values the workers put into the cache: the decimal text of a number
  (\<^verbatim>\<open>n.toString()\<close>) or the JSON text of an object, kept as the object.
\<close>

datatype 'a cache_value = NumText int | Json 'a

record 'a cache_entry =
  ce_value :: "'a cache_value"
  ce_expires :: "int option"

type_synonym 'a memoryCache = "string \<Rightarrow> 'a cache_entry option"

text \<open>\<^verbatim>\<open>cache.get\<close>, \<^verbatim>\<open>cache.set\<close> and \<^verbatim>\<open>cache.del\<close> of \<^verbatim>\<open>utils/redis.js\<close>; the first
  argument is \<^verbatim>\<open>Date.now()\<close>. A time to live of \<^verbatim>\<open>undefined\<close> or 0 gives no expiry.\<close>

definition cache_get :: "int \<Rightarrow> string \<Rightarrow> 'a memoryCache \<Rightarrow> 'a cache_value option \<times> 'a memoryCache" where
  "cache_get now k m =
     (case m k of
        Some entry \<Rightarrow>
          (case ce_expires entry of
             Some ex \<Rightarrow> if ex < now then (None, m(k := None)) else (Some (ce_value entry), m)
           | None \<Rightarrow> (Some (ce_value entry), m))
      | None \<Rightarrow> (None, m))"

definition cache_set :: "int \<Rightarrow> string \<Rightarrow> 'a cache_value \<Rightarrow> nat option \<Rightarrow> 'a memoryCache \<Rightarrow> 'a memoryCache" where
  "cache_set now k v ttl m =
     (let expires = (case ttl of
                       Some t \<Rightarrow> if t \<noteq> 0 then Some (now + int t * 1000) else None
                     | None \<Rightarrow> None)
      in m(k \<mapsto> \<lparr>ce_value = v, ce_expires = expires\<rparr>))"

definition cache_del :: "string \<Rightarrow> 'a memoryCache \<Rightarrow> 'a memoryCache" where
  "cache_del k m = m(k := None)"

subsection \<open>Strings\<close>

text \<open>\<^verbatim>\<open>String.prototype.toLowerCase\<close> on the ASCII text of an address.\<close>

definition toLowerCase_char :: "char \<Rightarrow> char" where
  "toLowerCase_char c =
     (case map_of (zip ''ABCDEFGHIJKLMNOPQRSTUVWXYZ'' ''abcdefghijklmnopqrstuvwxyz'') c of
        Some d \<Rightarrow> d
      | None \<Rightarrow> c)"

definition toLowerCase :: "string \<Rightarrow> string" where
  "toLowerCase s = map toLowerCase_char s"

subsection \<open>The persisted schema\<close>

datatype tx_status = PENDING | CONFIRMED | FAILED

datatype tx_type = SWAP_ETH_TO_TOKEN | OTHER_TYPE

record user =
  u_id :: nat
  u_walletAddress :: string

record transaction =
  tx_txHash :: string
  tx_userId :: nat
  tx_fromAddress :: string
  tx_toAddress :: string
  tx_tokenAddress :: string
  tx_amount :: nat
  tx_amountInEth :: nat
  tx_tokenAmount :: nat
  tx_type :: tx_type
  tx_status :: tx_status
  tx_blockNumber :: "nat option"
  tx_blockHash :: "string option"
  tx_gasUsed :: "nat option"
  tx_gasPrice :: "nat option"
  tx_confirmations :: nat

record swapEvent =
  se_txHash :: string
  se_blockNumber :: nat
  se_blockHash :: string
  se_buyer :: string
  se_ethAmount :: nat
  se_tokenAmount :: nat
  se_tokensPerEth :: nat
  se_logIndex :: nat
  se_createdAt :: int

record rateUpdate =
  ru_oldRate :: nat
  ru_newRate :: nat
  ru_updatedBy :: string
  ru_blockNumber :: nat
  ru_txHash :: string

text \<open>\<^verbatim>\<open>priceInEth\<close> is computed in floating point as \<^verbatim>\<open>1 / parseFloat(rate) * 1e18\<close>;
  the rounding of doubles is idealised to an exact rational, and division by zero
  gives \<^verbatim>\<open>Infinity\<close> as it does in the source.\<close>

datatype js_number = Finite rat | Infinity

record tokenMetrics =
  tm_timestamp :: int
  tm_totalSupply :: nat
  tm_contractBalance :: nat
  tm_totalSwaps :: nat
  tm_totalVolumeEth :: nat
  tm_totalVolumeTokens :: nat
  tm_uniqueUsers :: nat
  tm_tokensPerEth :: nat
  tm_priceInEth :: js_number

datatype period = DAILY | WEEKLY | MONTHLY | ALL_TIME

record leaderboard =
  lb_period :: period
  lb_walletAddress :: string
  lb_totalSwaps :: nat
  lb_totalVolumeEth :: nat
  lb_totalVolumeTokens :: nat
  lb_rank :: nat
  lb_periodStart :: int
  lb_periodEnd :: int

record stats =
  totalSwaps :: nat
  totalVolumeEth :: nat
  totalVolumeTokens :: nat

datatype json = JsonMetrics tokenMetrics | JsonLeaderboard "(string \<times> stats) list"

text \<open>The state the two workers read and write: the tables, the cache, the module
  variables of the indexer and the lines given to the logger.\<close>

record state =
  users :: "user list"
  transactions :: "transaction list"
  swapEvents :: "swapEvent list"
  rateUpdates :: "rateUpdate list"
  tokenMetricsTable :: "tokenMetrics list"
  leaderboardTable :: "leaderboard list"
  memoryCache :: "json memoryCache"
  lastProcessedBlock :: int
  isRunning :: bool
  logs :: "log_line list"

definition logger :: "log_line \<Rightarrow> state \<Rightarrow> state" where
  "logger l s = s\<lparr>logs := logs s @ [l]\<rparr>"

subsection \<open>The repository operations\<close>

text \<open>Prisma's \<^verbatim>\<open>findUnique\<close>, \<^verbatim>\<open>create\<close> and \<^verbatim>\<open>upsert\<close> on a table: \<^verbatim>\<open>upsert\<close> applies
  the update to the row the \<^verbatim>\<open>where\<close> clause selects and inserts the \<^verbatim>\<open>create\<close> row when
  there is none.\<close>

definition findUnique :: "('r \<Rightarrow> bool) \<Rightarrow> 'r list \<Rightarrow> 'r option" where
  "findUnique wh tbl = find wh tbl"

definition upsert :: "('r \<Rightarrow> bool) \<Rightarrow> 'r \<Rightarrow> ('r \<Rightarrow> 'r) \<Rightarrow> 'r list \<Rightarrow> 'r list" where
  "upsert wh cr upd tbl =
     (if list_ex wh tbl then map (\<lambda>r. if wh r then upd r else r) tbl else tbl @ [cr])"

text \<open>The identifier the database gives a new \<^verbatim>\<open>User\<close> row: one no row has.\<close>

definition fresh_id :: "user list \<Rightarrow> nat" where
  "fresh_id us = Suc (foldr max (map u_id us) 0)"

subsection \<open>Chain data\<close>

text \<open>What \<^verbatim>\<open>interface.parseLog\<close> gives for the three events of \<^verbatim>\<open>MEMECOIN_ABI\<close>.\<close>

datatype parsed =
    TokensPurchased string nat nat
  | TokensPerEthUpdated nat
  | Transfer string string nat

record block =
  bl_number :: nat
  bl_hash :: "string option"

record receipt =
  rc_hash :: string
  rc_from :: string
  rc_status :: "nat option"
  rc_gasUsed :: "nat option"
  rc_gasPrice :: "nat option"

text \<open>
  A log as the node returns it: its block number and index, the outcome of
  \<^verbatim>\<open>parseLog\<close> on its topics and data (it throws, returns \<^verbatim>\<open>null\<close> or returns the parsed
  event), and what \<^verbatim>\<open>getBlock()\<close> and \<^verbatim>\<open>getTransactionReceipt()\<close> resolve to
  (\<open>None\<close> is \<^verbatim>\<open>null\<close>).
\<close>

record log =
  lg_blockNumber :: int
  lg_index :: nat
  lg_parseLog :: "error + parsed option"
  lg_getBlock :: "block option"
  lg_getTransactionReceipt :: "receipt option"

text \<open>
  What the outside does while one log is handled: the database clock, which of the
  awaited calls reject, and the rate the contract reports.
\<close>

record io =
  io_now :: int
  io_getBlock_rejects :: bool
  io_getTransactionReceipt_rejects :: bool
  io_user_findUnique_rejects :: bool
  io_user_create_rejects :: bool
  io_transaction_upsert_rejects :: bool
  io_swapEvent_upsert_rejects :: bool
  io_tokensPerEth :: "error + nat"
  io_rateUpdate_create_rejects :: bool

definition CONTRACT_ADDRESS :: string where
  "CONTRACT_ADDRESS = ''0xA451b908c7AD183aBD55F8AD48C055Da8cb4264d''"

subsection \<open>The indexer: one swap log\<close>

text \<open>\<^verbatim>\<open>x ? BigInt(x.toString()) : undefined\<close>: \<^verbatim>\<open>null\<close>, \<^verbatim>\<open>undefined\<close> and \<^verbatim>\<open>0n\<close> are falsy.\<close>

definition truthy_bigint :: "nat option \<Rightarrow> nat option" where
  "truthy_bigint x = (case x of Some g \<Rightarrow> if g \<noteq> 0 then Some g else None | None \<Rightarrow> None)"

text \<open>\<^verbatim>\<open>block.hash || undefined\<close>: \<^verbatim>\<open>null\<close> and the empty string are falsy.\<close>

definition truthy_string :: "string option \<Rightarrow> string option" where
  "truthy_string x = (case x of Some h \<Rightarrow> if h \<noteq> [] then Some h else None | None \<Rightarrow> None)"

definition receipt_status :: "receipt \<Rightarrow> tx_status" where
  "receipt_status tx = (if rc_status tx = Some 1 then CONFIRMED else FAILED)"

text \<open>The \<^verbatim>\<open>create\<close> and \<^verbatim>\<open>update\<close> arguments of \<^verbatim>\<open>prisma.transaction.upsert\<close>. A field
  given as \<^verbatim>\<open>undefined\<close> is left out: \<^verbatim>\<open>null\<close> in a created row, untouched in an
  updated one.\<close>

definition transaction_create :: "user \<Rightarrow> string \<Rightarrow> nat \<Rightarrow> nat \<Rightarrow> block \<Rightarrow> receipt \<Rightarrow> transaction" where
  "transaction_create usr buyer ethAmount tokenAmount blk tx =
     \<lparr>tx_txHash = rc_hash tx,
      tx_userId = u_id usr,
      tx_fromAddress = toLowerCase buyer,
      tx_toAddress = toLowerCase CONTRACT_ADDRESS,
      tx_tokenAddress = toLowerCase CONTRACT_ADDRESS,
      tx_amount = ethAmount,
      tx_amountInEth = ethAmount,
      tx_tokenAmount = tokenAmount,
      tx_type = SWAP_ETH_TO_TOKEN,
      tx_status = receipt_status tx,
      tx_blockNumber = Some (bl_number blk),
      tx_blockHash = truthy_string (bl_hash blk),
      tx_gasUsed = truthy_bigint (rc_gasUsed tx),
      tx_gasPrice = truthy_bigint (rc_gasPrice tx),
      tx_confirmations = 0\<rparr>"

definition transaction_update :: "block \<Rightarrow> receipt \<Rightarrow> transaction \<Rightarrow> transaction" where
  "transaction_update blk tx row =
     row\<lparr>tx_status := receipt_status tx,
         tx_blockNumber := Some (bl_number blk),
         tx_blockHash := (case truthy_string (bl_hash blk) of Some h \<Rightarrow> Some h | None \<Rightarrow> tx_blockHash row),
         tx_gasUsed := (case truthy_bigint (rc_gasUsed tx) of Some g \<Rightarrow> Some g | None \<Rightarrow> tx_gasUsed row),
         tx_gasPrice := (case truthy_bigint (rc_gasPrice tx) of Some g \<Rightarrow> Some g | None \<Rightarrow> tx_gasPrice row)\<rparr>"

text \<open>The \<^verbatim>\<open>create\<close> argument of \<^verbatim>\<open>prisma.swapEvent.upsert\<close>. The quotient is the one
  of \<^verbatim>\<open>BigInt\<close>, which throws a \<^verbatim>\<open>RangeError\<close> on a zero divisor; this is decided by the
  caller before the row is built.\<close>

definition swapEvent_create :: "int \<Rightarrow> string \<Rightarrow> nat \<Rightarrow> nat \<Rightarrow> block \<Rightarrow> receipt \<Rightarrow> nat \<Rightarrow> swapEvent" where
  "swapEvent_create now buyer ethAmount tokenAmount blk tx idx =
     \<lparr>se_txHash = rc_hash tx,
      se_blockNumber = bl_number blk,
      se_blockHash = (case truthy_string (bl_hash blk) of Some h \<Rightarrow> h | None \<Rightarrow> []),
      se_buyer = toLowerCase buyer,
      se_ethAmount = ethAmount,
      se_tokenAmount = tokenAmount,
      se_tokensPerEth = tokenAmount div ethAmount,
      se_logIndex = idx,
      se_createdAt = now\<rparr>"

definition updateMetrics :: "nat \<Rightarrow> nat \<Rightarrow> state \<Rightarrow> state" where
  "updateMetrics ethAmount tokenAmount s = s\<lparr>memoryCache := cache_del ''token:metrics'' (memoryCache s)\<rparr>"

text \<open>
  The statements of \<^verbatim>\<open>processSwapEvent\<close> from the transaction upsert on. The
  arguments of each upsert are evaluated before the call: \<^verbatim>\<open>tx.hash\<close> and
  \<^verbatim>\<open>block.number\<close> throw a \<^verbatim>\<open>TypeError\<close> on \<^verbatim>\<open>null\<close>, and the quotient in the \<^verbatim>\<open>create\<close>
  argument of the swap-event upsert throws a \<^verbatim>\<open>RangeError\<close> when \<^verbatim>\<open>ethAmount\<close> is zero.
\<close>

definition processSwapEvent_persist ::
  "io \<Rightarrow> log \<Rightarrow> string \<Rightarrow> nat \<Rightarrow> nat \<Rightarrow> user \<Rightarrow> state \<Rightarrow> error option \<times> state" where
  "processSwapEvent_persist env event buyer ethAmount tokenAmount usr s =
     (case lg_getTransactionReceipt event of
        None \<Rightarrow> (Some TypeError, s)
      | Some tx \<Rightarrow>
          (case lg_getBlock event of
             None \<Rightarrow> (Some TypeError, s)
           | Some blk \<Rightarrow>
               if io_transaction_upsert_rejects env then (Some DbError, s)
               else
                 (let s1 = s\<lparr>transactions :=
                             upsert (\<lambda>r. tx_txHash r = rc_hash tx)
                               (transaction_create usr buyer ethAmount tokenAmount blk tx)
                               (transaction_update blk tx)
                               (transactions s)\<rparr>
                  in if ethAmount = 0 then (Some RangeError, s1)
                     else if io_swapEvent_upsert_rejects env then (Some DbError, s1)
                     else
                       (let s2 = s1\<lparr>swapEvents :=
                                   upsert (\<lambda>r. se_txHash r = rc_hash tx \<and> se_logIndex r = lg_index event)
                                     (swapEvent_create (io_now env) buyer ethAmount tokenAmount blk tx (lg_index event))
                                     (\<lambda>r. r)
                                     (swapEvents s1)\<rparr>;
                            s3 = updateMetrics ethAmount tokenAmount s2;
                            s4 = s3\<lparr>memoryCache := cache_del ''tx:stats:summary'' (memoryCache s3)\<rparr>;
                            s5 = s4\<lparr>memoryCache := cache_del (''tx:'' @ rc_hash tx) (memoryCache s4)\<rparr>
                        in (None, logger (Info (''Processed swap event: '' @ rc_hash tx)) s5)))))"

text \<open>
  The body of the \<^verbatim>\<open>try\<close> block of \<^verbatim>\<open>processSwapEvent\<close>, statement by statement. The
  result is the exception that left the block, if any, and the state reached: the
  writes made before the exception stay, since the handler runs in no database
  transaction.
\<close>

definition processSwapEvent_try :: "io \<Rightarrow> log \<Rightarrow> state \<Rightarrow> error option \<times> state" where
  "processSwapEvent_try env event s =
     (case lg_parseLog event of
        Inl err \<Rightarrow> (Some err, s)
      | Inr None \<Rightarrow> (None, s)
      | Inr (Some (TokensPerEthUpdated _)) \<Rightarrow> (Some TypeError, s)
      | Inr (Some (Transfer _ _ _)) \<Rightarrow> (Some TypeError, s)
      | Inr (Some (TokensPurchased buyer ethAmount tokenAmount)) \<Rightarrow>
          if io_getBlock_rejects env then (Some RpcError, s)
          else if io_getTransactionReceipt_rejects env then (Some RpcError, s)
          else if io_user_findUnique_rejects env then (Some DbError, s)
          else
            (case findUnique (\<lambda>u. u_walletAddress u = toLowerCase buyer) (users s) of
               None \<Rightarrow>
                 if io_user_create_rejects env then (Some DbError, s)
                 else
                   (let usr = \<lparr>u_id = fresh_id (users s), u_walletAddress = toLowerCase buyer\<rparr>
                    in processSwapEvent_persist env event buyer ethAmount tokenAmount usr
                         (s\<lparr>users := users s @ [usr]\<rparr>))
             | Some usr \<Rightarrow> processSwapEvent_persist env event buyer ethAmount tokenAmount usr s))"

text \<open>\<^verbatim>\<open>processSwapEvent\<close>: the \<^verbatim>\<open>catch\<close> clause logs the exception and returns.\<close>

definition processSwapEvent :: "io \<Rightarrow> log \<Rightarrow> state \<Rightarrow> state" where
  "processSwapEvent env event s =
     (case processSwapEvent_try env event s of
        (Some err, s') \<Rightarrow> logger (Error ''Error processing swap event:'' err) s'
      | (None, s') \<Rightarrow> s')"

subsection \<open>The indexer: one rate-update log\<close>

definition processRateUpdateEvent_try :: "io \<Rightarrow> log \<Rightarrow> state \<Rightarrow> error option \<times> state" where
  "processRateUpdateEvent_try env event s =
     (case lg_parseLog event of
        Inl err \<Rightarrow> (Some err, s)
      | Inr None \<Rightarrow> (None, s)
      | Inr (Some (TokensPurchased _ _ _)) \<Rightarrow> (Some TypeError, s)
      | Inr (Some (Transfer _ _ _)) \<Rightarrow> (Some TypeError, s)
      | Inr (Some (TokensPerEthUpdated newRate)) \<Rightarrow>
          if io_getBlock_rejects env then (Some RpcError, s)
          else if io_getTransactionReceipt_rejects env then (Some RpcError, s)
          else
            (case io_tokensPerEth env of
               Inl err \<Rightarrow> (Some err, s)
             | Inr oldRate \<Rightarrow>
                 (case lg_getTransactionReceipt event of
                    None \<Rightarrow> (Some TypeError, s)
                  | Some tx \<Rightarrow>
                      (case lg_getBlock event of
                         None \<Rightarrow> (Some TypeError, s)
                       | Some blk \<Rightarrow>
                           if io_rateUpdate_create_rejects env then (Some DbError, s)
                           else
                             (let s1 = s\<lparr>rateUpdates := rateUpdates s @
                                         [\<lparr>ru_oldRate = oldRate,
                                           ru_newRate = newRate,
                                           ru_updatedBy = toLowerCase (rc_from tx),
                                           ru_blockNumber = bl_number blk,
                                           ru_txHash = rc_hash tx\<rparr>]\<rparr>;
                                  s2 = s1\<lparr>memoryCache := cache_del ''token:metrics'' (memoryCache s1)\<rparr>;
                                  s3 = s2\<lparr>memoryCache := cache_del ''token:rate'' (memoryCache s2)\<rparr>
                              in (None, logger (InfoN ''Processed rate update'' [int oldRate, int newRate]) s3))))))"

definition processRateUpdateEvent :: "io \<Rightarrow> log \<Rightarrow> state \<Rightarrow> state" where
  "processRateUpdateEvent env event s =
     (case processRateUpdateEvent_try env event s of
        (Some err, s') \<Rightarrow> logger (Error ''Error processing rate update event:'' err) s'
      | (None, s') \<Rightarrow> s')"

subsection \<open>The indexer: a block range and the loop\<close>

text \<open>
  The node during one cycle of the loop: what \<^verbatim>\<open>getBlockNumber()\<close> resolves to, the
  logs of the contract the node holds for each of the two filters (or the rejection
  of \<^verbatim>\<open>queryFilter\<close>), each log with what the outside does while it is handled, the
  clock, and whether \<^verbatim>\<open>stop()\<close> is called while the cycle sleeps.
\<close>

record node =
  nd_getBlockNumber :: "error + int"
  nd_swapLogs :: "error + (io \<times> log) list"
  nd_rateLogs :: "error + (io \<times> log) list"
  nd_now :: int
  nd_stop :: bool

definition queryFilter :: "(io \<times> log) list \<Rightarrow> int \<Rightarrow> int \<Rightarrow> (io \<times> log) list" where
  "queryFilter held fromBlock toBlock =
     filter (\<lambda>(env, l). fromBlock \<le> lg_blockNumber l \<and> lg_blockNumber l \<le> toBlock) held"

fun processSwapEvents :: "(io \<times> log) list \<Rightarrow> state \<Rightarrow> state" where
  "processSwapEvents [] s = s"
| "processSwapEvents ((env, event) # rest) s = processSwapEvents rest (processSwapEvent env event s)"

fun processRateUpdateEvents :: "(io \<times> log) list \<Rightarrow> state \<Rightarrow> state" where
  "processRateUpdateEvents [] s = s"
| "processRateUpdateEvents ((env, event) # rest) s =
     processRateUpdateEvents rest (processRateUpdateEvent env event s)"

text \<open>\<^verbatim>\<open>processBlocks\<close>: both queries are awaited before the first log is handled; an
  exception is logged and thrown again.\<close>

definition processBlocks :: "node \<Rightarrow> int \<Rightarrow> int \<Rightarrow> state \<Rightarrow> error option \<times> state" where
  "processBlocks nd fromBlock toBlock s =
     (let s0 = logger (InfoN ''Processing blocks'' [fromBlock, toBlock]) s
      in case nd_swapLogs nd of
           Inl err \<Rightarrow> (Some err, logger (Error ''Error processing blocks:'' err) s0)
         | Inr heldSwaps \<Rightarrow>
             (case nd_rateLogs nd of
                Inl err \<Rightarrow> (Some err, logger (Error ''Error processing blocks:'' err) s0)
              | Inr heldRates \<Rightarrow>
                  (let swapEvts = queryFilter heldSwaps fromBlock toBlock;
                       rateEvts = queryFilter heldRates fromBlock toBlock;
                       s1 = processSwapEvents swapEvts s0;
                       s2 = processRateUpdateEvents rateEvts s1
                   in (None, logger (InfoN ''Processed swap events and rate updates''
                                       [int (length swapEvts), int (length rateEvts)]) s2))))"

text \<open>
  One pass through the body of the \<^verbatim>\<open>while\<close> loop of \<^verbatim>\<open>indexLoop\<close>. Besides the new
  state it reports what the pass did and how long it sleeps afterwards (milliseconds).
\<close>

datatype cycle = Idle | Committed int int | Aborted error

definition indexLoop_iteration :: "node \<Rightarrow> state \<Rightarrow> (cycle \<times> nat) \<times> state" where
  "indexLoop_iteration nd s =
     (case nd_getBlockNumber nd of
        Inl err \<Rightarrow> ((Aborted err, 10000), logger (Error ''Error in index loop:'' err) s)
      | Inr currentBlock \<Rightarrow>
          if currentBlock > lastProcessedBlock s then
            (case processBlocks nd (lastProcessedBlock s + 1) currentBlock s of
               (Some err, s1) \<Rightarrow> ((Aborted err, 10000), logger (Error ''Error in index loop:'' err) s1)
             | (None, s1) \<Rightarrow>
                 (let s2 = s1\<lparr>lastProcessedBlock := currentBlock\<rparr>;
                      s3 = s2\<lparr>memoryCache :=
                              cache_set (nd_now nd) ''indexer:lastBlock'' (NumText currentBlock) None
                                (memoryCache s2)\<rparr>
                  in ((Committed (lastProcessedBlock s + 1) currentBlock, 5000), s3)))
          else ((Idle, 5000), s))"

definition stop :: "state \<Rightarrow> state" where
  "stop s = logger (Info ''Stopping blockchain indexer...'') (s\<lparr>isRunning := False\<rparr>)"

text \<open>The loop over the cycles the process lives through, one \<open>node\<close> per cycle; it
  returns what each pass reported and the state it ends in.\<close>

fun indexLoop :: "node list \<Rightarrow> state \<Rightarrow> (cycle \<times> nat) list \<times> state" where
  "indexLoop [] s = ([], s)"
| "indexLoop (nd # nds) s =
     (if isRunning s then
        (let (r, s1) = indexLoop_iteration nd s;
             s2 = (if nd_stop nd then stop s1 else s1);
             (rs, s3) = indexLoop nds s2
         in (r # rs, s3))
      else ([], s))"

subsection \<open>The analytics worker: dates\<close>

text \<open>
  A JavaScript \<^verbatim>\<open>Date\<close> is a mutable object, and \<^verbatim>\<open>calculateLeaderboardForPeriod\<close>
  both mutates and shares one. Dates therefore live in a store: a reference is an
  index into the list of time values (milliseconds since the epoch), \<^verbatim>\<open>new Date(t)\<close>
  allocates, the setters overwrite and return the new time value. The process is
  taken to run in UTC, where local time is the time value itself.
\<close>

type_synonym date_ref = nat

type_synonym date_store = "int list"

definition msPerDay :: int where
  "msPerDay = 86400000"

definition new_Date :: "int \<Rightarrow> date_store \<Rightarrow> date_ref \<times> date_store" where
  "new_Date t h = (length h, h @ [t])"

definition getTime :: "date_ref \<Rightarrow> date_store \<Rightarrow> int" where
  "getTime d h = h ! d"

text \<open>The proleptic Gregorian calendar: the civil date of a day number counted from
  1970-01-01 and back (months 1 to 12).\<close>

definition civil_from_days :: "int \<Rightarrow> int \<times> int \<times> int" where
  "civil_from_days days =
     (let z = days + 719468;
          era = z div 146097;
          doe = z - era * 146097;
          yoe = (doe - doe div 1460 + doe div 36524 - doe div 146096) div 365;
          y = yoe + era * 400;
          doy = doe - (365 * yoe + yoe div 4 - yoe div 100);
          mp = (5 * doy + 2) div 153;
          d = doy - (153 * mp + 2) div 5 + 1;
          m = (if mp < 10 then mp + 3 else mp - 9)
      in (if m \<le> 2 then y + 1 else y, m, d))"

definition days_from_civil :: "int \<Rightarrow> int \<Rightarrow> int \<Rightarrow> int" where
  "days_from_civil year m d =
     (let y = (if m \<le> 2 then year - 1 else year);
          era = y div 400;
          yoe = y - era * 400;
          doy = (153 * (if m > 2 then m - 3 else m + 9) + 2) div 5 + d - 1;
          doe = yoe * 365 + yoe div 4 - yoe div 100 + doy
      in era * 146097 + doe - 719468)"

definition getFullYear :: "date_ref \<Rightarrow> date_store \<Rightarrow> int" where
  "getFullYear d h = fst (civil_from_days (getTime d h div msPerDay))"

definition getMonth :: "date_ref \<Rightarrow> date_store \<Rightarrow> int" where
  "getMonth d h = fst (snd (civil_from_days (getTime d h div msPerDay))) - 1"

definition getDate :: "date_ref \<Rightarrow> date_store \<Rightarrow> int" where
  "getDate d h = snd (snd (civil_from_days (getTime d h div msPerDay)))"

definition getDay :: "date_ref \<Rightarrow> date_store \<Rightarrow> int" where
  "getDay d h = (getTime d h div msPerDay + 4) mod 7"

text \<open>\<^verbatim>\<open>d.setHours(hh, mm, ss, ms)\<close> and \<^verbatim>\<open>d.setDate(n)\<close> change the object \<open>d\<close> and
  return its new time value; \<^verbatim>\<open>setDate\<close> counts from the first of the month of \<open>d\<close>
  and accepts any integer.\<close>

definition setHours :: "date_ref \<Rightarrow> int \<Rightarrow> int \<Rightarrow> int \<Rightarrow> int \<Rightarrow> date_store \<Rightarrow> int \<times> date_store" where
  "setHours d hh mm ss ms h =
     (let t = (getTime d h div msPerDay) * msPerDay + hh * 3600000 + mm * 60000 + ss * 1000 + ms
      in (t, h[d := t]))"

definition setDate :: "date_ref \<Rightarrow> int \<Rightarrow> date_store \<Rightarrow> int \<times> date_store" where
  "setDate d n h =
     (let t = (days_from_civil (getFullYear d h) (getMonth d h + 1) 1 + (n - 1)) * msPerDay
                + getTime d h mod msPerDay
      in (t, h[d := t]))"

text \<open>\<^verbatim>\<open>new Date(year, monthIndex, day)\<close>: midnight of that civil date.\<close>

definition Date_of_civil :: "int \<Rightarrow> int \<Rightarrow> int \<Rightarrow> int" where
  "Date_of_civil year monthIndex day = days_from_civil year (monthIndex + 1) day * msPerDay"

subsection \<open>The analytics worker: what the outside does during a tick\<close>

text \<open>
  The clock read by \<^verbatim>\<open>new Date()\<close>, which of the awaited database calls reject (for
  the leaderboard upserts, by position in the loop), and whether a module outside
  this file has given \<^verbatim>\<open>BigInt\<close> a \<^verbatim>\<open>toJSON\<close> method: without one, \<^verbatim>\<open>JSON.stringify\<close>
  throws a \<^verbatim>\<open>TypeError\<close> on an object that holds a \<^verbatim>\<open>BigInt\<close>.
\<close>

record tick =
  tk_now :: int
  tk_findFirst_rejects :: bool
  tk_aggregate_rejects :: bool
  tk_tokenMetrics_create_rejects :: bool
  tk_findMany_rejects :: bool
  tk_leaderboard_upsert_rejects :: "nat \<Rightarrow> bool"
  tk_bigint_toJSON :: bool

subsection \<open>The analytics worker: token metrics\<close>

text \<open>\<^verbatim>\<open>findFirst({ orderBy: { createdAt: 'desc' } })\<close>: a row of greatest \<^verbatim>\<open>createdAt\<close>, the
  earliest inserted among equals; \<^verbatim>\<open>null\<close> on an empty table.\<close>

definition findFirst_latest :: "swapEvent list \<Rightarrow> swapEvent option" where
  "findFirst_latest tbl =
     (case sort_key (\<lambda>r. - se_createdAt r) tbl of [] \<Rightarrow> None | r # _ \<Rightarrow> Some r)"

definition getContractBalance :: nat where
  "getContractBalance = 0"

definition priceInEth :: "nat \<Rightarrow> js_number" where
  "priceInEth rate = (if rate = 0 then Infinity else Finite (1 / of_nat rate * 10 ^ 18))"

definition metrics_of :: "int \<Rightarrow> swapEvent \<Rightarrow> swapEvent list \<Rightarrow> tokenMetrics" where
  "metrics_of now latestSwap tbl =
     \<lparr>tm_timestamp = now,
      tm_totalSupply = 10 ^ 27,
      tm_contractBalance = getContractBalance,
      tm_totalSwaps = length tbl,
      tm_totalVolumeEth = sum_list (map se_ethAmount tbl),
      tm_totalVolumeTokens = sum_list (map se_tokenAmount tbl),
      tm_uniqueUsers = length (remdups (map se_buyer tbl)),
      tm_tokensPerEth = se_tokensPerEth latestSwap,
      tm_priceInEth = priceInEth (se_tokensPerEth latestSwap)\<rparr>"

definition calculateMetrics_try :: "tick \<Rightarrow> state \<Rightarrow> error option \<times> state" where
  "calculateMetrics_try tk s =
     (let s0 = logger (Info ''Calculating token metrics...'') s
      in if tk_findFirst_rejects tk then (Some DbError, s0)
         else
           (case findFirst_latest (swapEvents s0) of
              None \<Rightarrow> (None, logger (Info ''No swap events found, skipping metrics calculation'') s0)
            | Some latestSwap \<Rightarrow>
                if tk_aggregate_rejects tk then (Some DbError, s0)
                else
                  (let metrics = metrics_of (tk_now tk) latestSwap (swapEvents s0)
                   in if tk_tokenMetrics_create_rejects tk then (Some DbError, s0)
                      else
                        (let s1 = s0\<lparr>tokenMetricsTable := tokenMetricsTable s0 @ [metrics]\<rparr>
                         in if \<not> tk_bigint_toJSON tk then (Some TypeError, s1)
                            else
                              (let s2 = s1\<lparr>memoryCache :=
                                          cache_set (tk_now tk) ''token:metrics'' (Json (JsonMetrics metrics))
                                            (Some 300) (memoryCache s1)\<rparr>
                               in (None, logger (Info ''Token metrics calculated successfully'') s2))))))"

definition calculateMetrics :: "tick \<Rightarrow> state \<Rightarrow> state" where
  "calculateMetrics tk s =
     (case calculateMetrics_try tk s of
        (Some err, s') \<Rightarrow> logger (Error ''Error calculating metrics:'' err) s'
      | (None, s') \<Rightarrow> s')"

subsection \<open>The analytics worker: leaderboards\<close>

text \<open>
  The prologue of \<^verbatim>\<open>calculateLeaderboardForPeriod\<close>: the three variables \<^verbatim>\<open>now\<close>,
  \<^verbatim>\<open>periodStart\<close> and \<^verbatim>\<open>periodEnd\<close> as references, and the store they point into.
  \<^verbatim>\<open>let periodEnd = now\<close> copies the reference, not the date.
\<close>

definition period_bounds :: "period \<Rightarrow> int \<Rightarrow> (date_ref \<times> date_ref \<times> date_ref) \<times> date_store" where
  "period_bounds p t =
     (let (now, h0) = new_Date t [];
          periodEnd = now
      in case p of
           DAILY \<Rightarrow>
             (let (t1, h1) = setHours now 0 0 0 0 h0;
                  (periodStart, h2) = new_Date t1 h1
              in ((now, periodStart, periodEnd), h2))
         | WEEKLY \<Rightarrow>
             (let dayOfWeek = getDay now h0;
                  (t1, h1) = setDate now (getDate now h0 - dayOfWeek) h0;
                  (periodStart, h2) = new_Date t1 h1;
                  (t2, h3) = setHours periodStart 0 0 0 0 h2
              in ((now, periodStart, periodEnd), h3))
         | MONTHLY \<Rightarrow>
             (let (periodStart, h1) = new_Date (Date_of_civil (getFullYear now h0) (getMonth now h0) 1) h0
              in ((now, periodStart, periodEnd), h1))
         | ALL_TIME \<Rightarrow>
             (let (periodStart, h1) = new_Date 0 h0
              in ((now, periodStart, periodEnd), h1)))"

text \<open>\<^verbatim>\<open>findMany({ where: { createdAt: { gte, lte } } })\<close>.\<close>

definition findMany_createdAt :: "int \<Rightarrow> int \<Rightarrow> swapEvent list \<Rightarrow> swapEvent list" where
  "findMany_createdAt gte lte tbl = filter (\<lambda>r. gte \<le> se_createdAt r \<and> se_createdAt r \<le> lte) tbl"

text \<open>One pass of the aggregation loop. \<^verbatim>\<open>userStats\<close> is a \<^verbatim>\<open>Map\<close>: it iterates in the
  order in which its keys were first set, and setting a key it has keeps the key's
  place.\<close>

definition aggregate_swap :: "(string \<times> stats) list \<Rightarrow> swapEvent \<Rightarrow> (string \<times> stats) list" where
  "aggregate_swap userStats swap =
     (let buyer = toLowerCase (se_buyer swap);
          st = (case map_of userStats buyer of
                  Some st \<Rightarrow> st
                | None \<Rightarrow> \<lparr>totalSwaps = 0, totalVolumeEth = 0, totalVolumeTokens = 0\<rparr>);
          st1 = st\<lparr>totalSwaps := totalSwaps st + 1\<rparr>;
          st2 = st1\<lparr>totalVolumeEth := totalVolumeEth st1 + se_ethAmount swap\<rparr>;
          st3 = st2\<lparr>totalVolumeTokens := totalVolumeTokens st2 + se_tokenAmount swap\<rparr>
      in AList.update buyer st3 userStats)"

text \<open>\<^verbatim>\<open>Array.prototype.sort\<close> with the comparator of the source: descending by
  \<^verbatim>\<open>totalVolumeEth\<close>, and stable, so equal volumes keep their order.\<close>

definition sort_by_volume :: "(string \<times> stats) list \<Rightarrow> (string \<times> stats) list" where
  "sort_by_volume entries = sort_key (\<lambda>e. - int (totalVolumeEth (snd e))) entries"

definition leaderboard_where :: "period \<Rightarrow> string \<Rightarrow> int \<Rightarrow> leaderboard \<Rightarrow> bool" where
  "leaderboard_where p walletAddress periodStart r \<longleftrightarrow>
     lb_period r = p \<and> lb_walletAddress r = walletAddress \<and> lb_periodStart r = periodStart"

text \<open>The loop that saves the entries, from index \<open>i\<close> on. The dates are read from the
  store when the call is made.\<close>

fun save_entries ::
  "tick \<Rightarrow> period \<Rightarrow> date_store \<Rightarrow> date_ref \<Rightarrow> date_ref \<Rightarrow> date_ref \<Rightarrow> nat \<Rightarrow> (string \<times> stats) list \<Rightarrow>
     leaderboard list \<Rightarrow> error option \<times> leaderboard list" where
  "save_entries tk p h now periodStart periodEnd i [] tbl = (None, tbl)"
| "save_entries tk p h now periodStart periodEnd i ((walletAddress, st) # rest) tbl =
     (if tk_leaderboard_upsert_rejects tk i then (Some DbError, tbl)
      else
        save_entries tk p h now periodStart periodEnd (Suc i) rest
          (upsert (leaderboard_where p walletAddress (getTime periodStart h))
             \<lparr>lb_period = p,
              lb_walletAddress = walletAddress,
              lb_totalSwaps = totalSwaps st,
              lb_totalVolumeEth = totalVolumeEth st,
              lb_totalVolumeTokens = totalVolumeTokens st,
              lb_rank = i + 1,
              lb_periodStart = getTime periodStart h,
              lb_periodEnd = getTime periodEnd h\<rparr>
             (\<lambda>r. r\<lparr>lb_totalSwaps := totalSwaps st,
                    lb_totalVolumeEth := totalVolumeEth st,
                    lb_totalVolumeTokens := totalVolumeTokens st,
                    lb_rank := i + 1,
                    lb_periodEnd := getTime now h\<rparr>)
             tbl))"

definition period_name :: "period \<Rightarrow> string" where
  "period_name p =
     (case p of DAILY \<Rightarrow> ''DAILY'' | WEEKLY \<Rightarrow> ''WEEKLY'' | MONTHLY \<Rightarrow> ''MONTHLY'' | ALL_TIME \<Rightarrow> ''ALL_TIME'')"

definition calculateLeaderboardForPeriod :: "tick \<Rightarrow> period \<Rightarrow> state \<Rightarrow> error option \<times> state" where
  "calculateLeaderboardForPeriod tk p s =
     (let ((now, periodStart, periodEnd), h) = period_bounds p (tk_now tk)
      in if tk_findMany_rejects tk then (Some DbError, s)
         else
           (let swaps = findMany_createdAt (getTime periodStart h) (getTime periodEnd h) (swapEvents s);
                userStats = foldl aggregate_swap [] swaps;
                sorted = sort_by_volume userStats
            in case save_entries tk p h now periodStart periodEnd 0 sorted (leaderboardTable s) of
                 (Some err, tbl) \<Rightarrow> (Some err, s\<lparr>leaderboardTable := tbl\<rparr>)
               | (None, tbl) \<Rightarrow>
                   (let s1 = s\<lparr>leaderboardTable := tbl\<rparr>
                    in if sorted \<noteq> [] \<and> \<not> tk_bigint_toJSON tk then (Some TypeError, s1)
                       else
                         (None, s1\<lparr>memoryCache :=
                                   cache_set (tk_now tk) (''leaderboard:'' @ period_name p)
                                     (Json (JsonLeaderboard (take 100 sorted))) (Some 300)
                                     (memoryCache s1)\<rparr>))))"

fun calculateLeaderboards_loop :: "(period \<Rightarrow> tick) \<Rightarrow> period list \<Rightarrow> state \<Rightarrow> error option \<times> state" where
  "calculateLeaderboards_loop tks [] s = (None, s)"
| "calculateLeaderboards_loop tks (p # ps) s =
     (case calculateLeaderboardForPeriod (tks p) p s of
        (Some err, s') \<Rightarrow> (Some err, s')
      | (None, s') \<Rightarrow> calculateLeaderboards_loop tks ps s')"

definition calculateLeaderboards :: "(period \<Rightarrow> tick) \<Rightarrow> state \<Rightarrow> state" where
  "calculateLeaderboards tks s =
     (case calculateLeaderboards_loop tks [DAILY, WEEKLY, MONTHLY, ALL_TIME]
             (logger (Info ''Calculating leaderboards...'') s) of
        (Some err, s') \<Rightarrow> logger (Error ''Error calculating leaderboards:'' err) s'
      | (None, s') \<Rightarrow> logger (Info ''Leaderboards calculated successfully'') s')"

subsection \<open>Predicates used in the statements\<close>

text \<open>
  No awaited call of \<^verbatim>\<open>processSwapEvent\<close> rejects.
\<close>

definition io_accepts :: "io \<Rightarrow> bool" where
  "io_accepts env \<longleftrightarrow>
     \<not> io_getBlock_rejects env \<and> \<not> io_getTransactionReceipt_rejects env \<and>
     \<not> io_user_findUnique_rejects env \<and> \<not> io_user_create_rejects env \<and>
     \<not> io_transaction_upsert_rejects env \<and> \<not> io_swapEvent_upsert_rejects env"




text \<open>
  The block ranges of the passes of the loop that reached the cursor update, in order.
\<close>

definition committed :: "(cycle \<times> nat) list \<Rightarrow> (int \<times> int) list" where
  "committed rs = concat (map (\<lambda>(c, d). case c of Committed a b \<Rightarrow> [(a, b)] | _ \<Rightarrow> []) rs)"

text \<open>
  The bounds of the query of \<^verbatim>\<open>calculateLeaderboardForPeriod\<close> as the database
  receives them, the swap events it selects, the wallets in the order in which the
  entries are saved, and the leaderboard rows of a period and period start.
\<close>

definition period_start :: "period \<Rightarrow> int \<Rightarrow> int" where
  "period_start p t = (case period_bounds p t of ((now, periodStart, periodEnd), h) \<Rightarrow> getTime periodStart h)"

definition period_end :: "period \<Rightarrow> int \<Rightarrow> int" where
  "period_end p t = (case period_bounds p t of ((now, periodStart, periodEnd), h) \<Rightarrow> getTime periodEnd h)"

definition selected_swaps :: "tick \<Rightarrow> period \<Rightarrow> state \<Rightarrow> swapEvent list" where
  "selected_swaps tk p s =
     findMany_createdAt (period_start p (tk_now tk)) (period_end p (tk_now tk)) (swapEvents s)"

definition ranked_wallets :: "tick \<Rightarrow> period \<Rightarrow> state \<Rightarrow> string list" where
  "ranked_wallets tk p s = map fst (sort_by_volume (foldl aggregate_swap [] (selected_swaps tk p s)))"

definition in_period :: "period \<Rightarrow> int \<Rightarrow> leaderboard \<Rightarrow> bool" where
  "in_period p periodStart r \<longleftrightarrow> lb_period r = p \<and> lb_periodStart r = periodStart"

subsection \<open>Concrete inputs\<close>

text \<open>
  A database with no rows and the cursor at block 99; an outside in which every call
  succeeds; a \<^verbatim>\<open>TokensPurchased\<close> log of block 100 with its block and receipt; a
  database that already holds a pending transaction of another user under the same
  hash; a log whose data does not decode; a node at a given height holding given swap
  logs; and a batch of three logs: one that does not decode, one whose swap-event
  upsert is rejected, one that is handled to the end.
\<close>

definition fixture_state :: state where
  "fixture_state =
     \<lparr>users = [], transactions = [], swapEvents = [], rateUpdates = [], tokenMetricsTable = [],
      leaderboardTable = [], memoryCache = (\<lambda>k. None), lastProcessedBlock = 99, isRunning = True,
      logs = []\<rparr>"

definition fixture_io :: io where
  "fixture_io =
     \<lparr>io_now = 1000, io_getBlock_rejects = False, io_getTransactionReceipt_rejects = False,
      io_user_findUnique_rejects = False, io_user_create_rejects = False,
      io_transaction_upsert_rejects = False, io_swapEvent_upsert_rejects = False,
      io_tokensPerEth = Inr 1000, io_rateUpdate_create_rejects = False\<rparr>"

definition fixture_block :: block where
  "fixture_block = \<lparr>bl_number = 100, bl_hash = Some ''0xb1''\<rparr>"

definition fixture_receipt :: receipt where
  "fixture_receipt =
     \<lparr>rc_hash = ''0xt1'', rc_from = ''0xAb'', rc_status = Some 1, rc_gasUsed = Some 21000,
      rc_gasPrice = Some 5\<rparr>"

definition fixture_log :: "nat \<Rightarrow> nat \<Rightarrow> log" where
  "fixture_log ethAmount tokenAmount =
     \<lparr>lg_blockNumber = 100, lg_index = 0,
      lg_parseLog = Inr (Some (TokensPurchased ''0xAb'' ethAmount tokenAmount)),
      lg_getBlock = Some fixture_block, lg_getTransactionReceipt = Some fixture_receipt\<rparr>"

definition fixture_pending_state :: state where
  "fixture_pending_state =
     fixture_state\<lparr>transactions :=
       [\<lparr>tx_txHash = ''0xt1'', tx_userId = 7, tx_fromAddress = ''0xfeed'', tx_toAddress = ''0xbeef'',
         tx_tokenAddress = ''0xbeef'', tx_amount = 9, tx_amountInEth = 9, tx_tokenAmount = 11,
         tx_type = OTHER_TYPE, tx_status = PENDING, tx_blockNumber = None, tx_blockHash = None,
         tx_gasUsed = None, tx_gasPrice = None, tx_confirmations = 3\<rparr>]\<rparr>"

definition fixture_bad_log :: log where
  "fixture_bad_log =
     \<lparr>lg_blockNumber = 100, lg_index = 1, lg_parseLog = Inl TypeError,
      lg_getBlock = Some fixture_block, lg_getTransactionReceipt = Some fixture_receipt\<rparr>"

definition fixture_node :: "int \<Rightarrow> (io \<times> log) list \<Rightarrow> node" where
  "fixture_node h held =
     \<lparr>nd_getBlockNumber = Inr h, nd_swapLogs = Inr held, nd_rateLogs = Inr [], nd_now = 2000,
      nd_stop = False\<rparr>"

definition fixture_held :: "(io \<times> log) list" where
  "fixture_held =
     [(fixture_io, fixture_bad_log),
      (fixture_io\<lparr>io_swapEvent_upsert_rejects := True\<rparr>, (fixture_log 2 5)\<lparr>lg_index := 2\<rparr>),
      (fixture_io, fixture_log 2 5)]"



text \<open>
  A tick at noon UTC of 8 January 2022 in which every call succeeds, and a database
  whose swap events are two swaps of that day: wallet \<^verbatim>\<open>0xw1\<close> with 2 ETH at 09:00 and
  wallet \<^verbatim>\<open>0xw2\<close> with 5 ETH at 10:00 (amounts in wei).
\<close>

definition fixture_tick :: tick where
  "fixture_tick =
     \<lparr>tk_now = 1641643200000, tk_findFirst_rejects = False, tk_aggregate_rejects = False,
      tk_tokenMetrics_create_rejects = False, tk_findMany_rejects = False,
      tk_leaderboard_upsert_rejects = (\<lambda>i. False), tk_bigint_toJSON = True\<rparr>"

definition fixture_swap :: "string \<Rightarrow> nat \<Rightarrow> nat \<Rightarrow> int \<Rightarrow> swapEvent" where
  "fixture_swap buyer ethAmount idx createdAt =
     \<lparr>se_txHash = ''0xt'', se_blockNumber = 100, se_blockHash = ''0xb1'', se_buyer = buyer,
      se_ethAmount = ethAmount, se_tokenAmount = ethAmount * 1000, se_tokensPerEth = 1000,
      se_logIndex = idx, se_createdAt = createdAt\<rparr>"

definition fixture_day_state :: state where
  "fixture_day_state =
     fixture_state\<lparr>swapEvents :=
       [fixture_swap ''0xw1'' 2000000000000000000 0 1641632400000,
        fixture_swap ''0xw2'' 5000000000000000000 1 1641636000000]\<rparr>"

section \<open>Properties of the indexer\<close>

lemmas fixture_defs = fixture_state_def fixture_io_def fixture_block_def fixture_receipt_def fixture_log_def

lemmas fixture_defs2 = fixture_defs fixture_pending_state_def fixture_bad_log_def fixture_node_def

lemmas fixture_defs3 = fixture_defs2 fixture_held_def

lemmas run_defs = processSwapEvent_def processSwapEvent_try_def processSwapEvent_persist_def
  findUnique_def upsert_def fresh_id_def transaction_create_def transaction_update_def
  swapEvent_create_def updateMetrics_def cache_del_def logger_def truthy_bigint_def truthy_string_def
  receipt_status_def toLowerCase_def toLowerCase_char_def CONTRACT_ADDRESS_def Let_def

lemmas loop_defs = indexLoop_iteration_def processBlocks_def queryFilter_def cache_set_def stop_def
  processRateUpdateEvent_def processRateUpdateEvent_try_def

subsection \<open>The repository operations\<close>

lemma upsert_id: "upsert wh cr (\<lambda>r. r) tbl = (if list_ex wh tbl then tbl else tbl @ [cr])"
  by (simp add: upsert_def map_idI)

lemma upsert_length: "length tbl \<le> length (upsert wh cr upd tbl)"
  by (simp add: upsert_def)

lemma upsert_nth:
  "i < length tbl \<Longrightarrow> upsert wh cr upd tbl ! i = (if wh (tbl ! i) then upd (tbl ! i) else tbl ! i)"
  by (auto simp: upsert_def nth_append list_ex_iff)

lemma upsert_has: "wh cr \<Longrightarrow> (\<And>r. wh r \<Longrightarrow> wh (upd r)) \<Longrightarrow> list_ex wh (upsert wh cr upd tbl)"
  by (auto simp: upsert_def list_ex_iff)

lemma upsert_fixed:
  assumes "\<And>r. wh (upd r) = wh r" "\<And>r. upd (upd r) = upd r" "upd cr = cr" "wh cr"
  shows "upsert wh cr' upd (upsert wh cr upd tbl) = upsert wh cr upd tbl"
proof (cases "list_ex wh tbl")
  case True
  then have "list_ex wh (map (\<lambda>r. if wh r then upd r else r) tbl)"
    using assms(1) by (auto simp: list_ex_iff)
  then show ?thesis using True assms by (simp add: upsert_def comp_def)
next
  case False
  then have "map (\<lambda>r. if wh r then upd r else r) tbl = tbl"
    by (auto simp: list_ex_iff intro: map_idI)
  then show ?thesis using False assms by (simp add: upsert_def)
qed

lemma findUnique_None: "findUnique wh tbl = None \<longleftrightarrow> \<not> list_ex wh tbl"
  by (auto simp add: findUnique_def find_None_iff list_ex_iff)

lemma findUnique_Some: "findUnique wh tbl = Some r \<Longrightarrow> r \<in> set tbl \<and> wh r"
  by (auto simp: findUnique_def find_Some_iff)

subsection \<open>One swap log\<close>

lemma processSwapEvent_tables:
  "swapEvents (processSwapEvent env event s) = swapEvents (snd (processSwapEvent_try env event s))"
  "transactions (processSwapEvent env event s) = transactions (snd (processSwapEvent_try env event s))"
  "users (processSwapEvent env event s) = users (snd (processSwapEvent_try env event s))"
  by (simp_all add: processSwapEvent_def logger_def split: prod.splits option.splits)

lemma processSwapEvent_fields:
  "rateUpdates (processSwapEvent env event s) = rateUpdates (snd (processSwapEvent_try env event s))"
  "lastProcessedBlock (processSwapEvent env event s) = lastProcessedBlock (snd (processSwapEvent_try env event s))"
  "memoryCache (processSwapEvent env event s) = memoryCache (snd (processSwapEvent_try env event s))"
  "isRunning (processSwapEvent env event s) = isRunning (snd (processSwapEvent_try env event s))"
  by (simp_all add: processSwapEvent_def logger_def split: prod.splits option.splits)

lemma persist_swapEvents_zero:
  "swapEvents (snd (processSwapEvent_persist env event buyer 0 tokenAmount usr s)) = swapEvents s"
  by (simp add: processSwapEvent_persist_def Let_def split: option.splits)

lemma try_swapEvents_zero:
  assumes "lg_parseLog event = Inr (Some (TokensPurchased buyer 0 tokenAmount))"
  shows "swapEvents (snd (processSwapEvent_try env event s)) = swapEvents s"
  using assms by (simp add: processSwapEvent_try_def persist_swapEvents_zero Let_def split: option.splits)

lemma transaction_upsert_has:
  "list_ex (\<lambda>r. tx_txHash r = rc_hash tx)
     (upsert (\<lambda>r. tx_txHash r = rc_hash tx) (transaction_create usr buyer e t blk tx)
        (transaction_update blk tx) tbl)"
  by (rule upsert_has) (simp_all add: transaction_create_def transaction_update_def)

lemma persist_swapEvents_cases:
  "swapEvents (snd (processSwapEvent_persist env event buyer ethAmount tokenAmount usr s)) = swapEvents s \<or>
   (\<exists>blk tx. ethAmount \<noteq> 0 \<and>
      swapEvents (snd (processSwapEvent_persist env event buyer ethAmount tokenAmount usr s)) =
        swapEvents s @ [swapEvent_create (io_now env) buyer ethAmount tokenAmount blk tx (lg_index event)])"
  by (auto simp add: processSwapEvent_persist_def Let_def upsert_id updateMetrics_def logger_def split: option.splits)

lemma try_swapEvents_cases:
  "swapEvents (snd (processSwapEvent_try env event s)) = swapEvents s \<or>
   (\<exists>buyer ethAmount tokenAmount blk tx.
      lg_parseLog event = Inr (Some (TokensPurchased buyer ethAmount tokenAmount)) \<and> ethAmount \<noteq> 0 \<and>
      swapEvents (snd (processSwapEvent_try env event s)) =
        swapEvents s @ [swapEvent_create (io_now env) buyer ethAmount tokenAmount blk tx (lg_index event)])"
proof (cases "lg_parseLog event")
  case (Inl e)
  then show ?thesis by (simp add: processSwapEvent_try_def)
next
  case (Inr po)
  show ?thesis
  proof (cases po)
    case None
    with Inr show ?thesis by (simp add: processSwapEvent_try_def)
  next
    case (Some p)
    show ?thesis
    proof (cases p)
      case (TokensPurchased buyer ethAmount tokenAmount)
      show ?thesis
        using Inr Some TokensPurchased
          persist_swapEvents_cases[of env event buyer ethAmount tokenAmount _ s]
          persist_swapEvents_cases[of env event buyer ethAmount tokenAmount _ "s\<lparr>users := users s @ [_]\<rparr>"]
        by (simp add: processSwapEvent_try_def Let_def split: option.splits)
    qed (use Inr Some in \<open>simp_all add: processSwapEvent_try_def\<close>)
  qed
qed

text \<open>
  Claim C10. A \<^verbatim>\<open>TokensPurchased\<close> log whose decoded \<^verbatim>\<open>ethAmount\<close> is zero never gets
  a swap-event row, whatever the outside does: the table of swap events is unchanged.
  When no call rejects, the user row and the transaction row are written all the
  same, and the handler logs the \<^verbatim>\<open>RangeError\<close> of the division: a transaction without
  its swap event.
\<close>

theorem zero_ethAmount_partial_write:
  "lg_parseLog event = Inr (Some (TokensPurchased buyer 0 tokenAmount)) \<Longrightarrow>
     swapEvents (processSwapEvent env event s) = swapEvents s \<and>
     (io_accepts env \<and> lg_getBlock event = Some blk \<and> lg_getTransactionReceipt event = Some tx \<longrightarrow>
        list_ex (\<lambda>r. tx_txHash r = rc_hash tx) (transactions (processSwapEvent env event s)) \<and>
        list_ex (\<lambda>u. u_walletAddress u = toLowerCase buyer) (users (processSwapEvent env event s)) \<and>
        logs (processSwapEvent env event s) = logs s @ [Error ''Error processing swap event:'' RangeError])"
proof -
  assume parsed: "lg_parseLog event = Inr (Some (TokensPurchased buyer 0 tokenAmount))"
  have unchanged: "swapEvents (processSwapEvent env event s) = swapEvents s"
    using try_swapEvents_zero[OF parsed] by (simp add: processSwapEvent_tables)
  have partial: "list_ex (\<lambda>r. tx_txHash r = rc_hash tx) (transactions (processSwapEvent env event s)) \<and>
         list_ex (\<lambda>u. u_walletAddress u = toLowerCase buyer) (users (processSwapEvent env event s)) \<and>
         logs (processSwapEvent env event s) = logs s @ [Error ''Error processing swap event:'' RangeError]"
    if a: "io_accepts env" "lg_getBlock event = Some blk" "lg_getTransactionReceipt event = Some tx"
  proof (cases "findUnique (\<lambda>u. u_walletAddress u = toLowerCase buyer) (users s)")
    case None
    then show ?thesis using a parsed
      by (simp add: processSwapEvent_def processSwapEvent_try_def processSwapEvent_persist_def io_accepts_def
          Let_def logger_def transaction_upsert_has)
  next
    case (Some u)
    then show ?thesis using a parsed findUnique_Some[OF Some]
      by (simp add: processSwapEvent_def processSwapEvent_try_def processSwapEvent_persist_def io_accepts_def
          Let_def logger_def transaction_upsert_has) (auto simp: list_ex_iff)
  qed
  from unchanged partial show ?thesis by blast
qed

theorem zero_ethAmount_partial_write_witness:
  "lg_parseLog (fixture_log 0 5) = Inr (Some (TokensPurchased ''0xAb'' 0 5)) \<and>
   io_accepts fixture_io \<and>
   lg_getBlock (fixture_log 0 5) = Some fixture_block \<and>
   lg_getTransactionReceipt (fixture_log 0 5) = Some fixture_receipt \<and>
   swapEvents (processSwapEvent fixture_io (fixture_log 0 5) fixture_state) = [] \<and>
   list_ex (\<lambda>r. tx_txHash r = ''0xt1'') (transactions (processSwapEvent fixture_io (fixture_log 0 5) fixture_state)) \<and>
   list_ex (\<lambda>u. u_walletAddress u = ''0xab'') (users (processSwapEvent fixture_io (fixture_log 0 5) fixture_state)) \<and>
   logs (processSwapEvent fixture_io (fixture_log 0 5) fixture_state) =
     [Error ''Error processing swap event:'' RangeError]"
proof -
  have h: "lg_parseLog (fixture_log 0 5) = Inr (Some (TokensPurchased ''0xAb'' 0 5))"
    by (simp add: fixture_log_def)
  have a: "io_accepts fixture_io" by (simp add: io_accepts_def fixture_io_def)
  have b: "lg_getBlock (fixture_log 0 5) = Some fixture_block"
    "lg_getTransactionReceipt (fixture_log 0 5) = Some fixture_receipt"
    by (simp_all add: fixture_log_def)
  have c: "toLowerCase ''0xAb'' = ''0xab''" "rc_hash fixture_receipt = ''0xt1''"
    "swapEvents fixture_state = []" "logs fixture_state = []"
    by (simp_all add: toLowerCase_def toLowerCase_char_def fixture_receipt_def fixture_state_def)
  from zero_ethAmount_partial_write[OF h, of fixture_io fixture_state fixture_block fixture_receipt] a b
  show ?thesis unfolding c using h by simp
qed

text \<open>
  Claim C6. A swap-event row that \<^verbatim>\<open>processSwapEvent\<close> adds to the table comes from a
  decoded \<^verbatim>\<open>TokensPurchased\<close> log with a non-zero \<^verbatim>\<open>ethAmount\<close>, carries the two decoded
  amounts, and its stored rate is their quotient \<^verbatim>\<open>tokenAmount / ethAmount\<close>, the
  quotient being the one of \<^verbatim>\<open>BigInt\<close>: the integer \<open>q\<close> with
  \<open>q * ethAmount \<le> tokenAmount < (q + 1) * ethAmount\<close>.
\<close>

theorem stored_rate:
  "r \<in> set (swapEvents (processSwapEvent env event s)) \<Longrightarrow> r \<notin> set (swapEvents s) \<Longrightarrow>
     \<exists>buyer ethAmount tokenAmount.
       lg_parseLog event = Inr (Some (TokensPurchased buyer ethAmount tokenAmount)) \<and>
       ethAmount \<noteq> 0 \<and> se_ethAmount r = ethAmount \<and> se_tokenAmount r = tokenAmount \<and>
       se_tokensPerEth r = tokenAmount div ethAmount \<and>
       se_tokensPerEth r * ethAmount \<le> tokenAmount \<and> tokenAmount < (se_tokensPerEth r + 1) * ethAmount"
proof -
  assume r: "r \<in> set (swapEvents (processSwapEvent env event s))" "r \<notin> set (swapEvents s)"
  from try_swapEvents_cases[of env event s] r
  obtain buyer ethAmount tokenAmount blk tx where
    p: "lg_parseLog event = Inr (Some (TokensPurchased buyer ethAmount tokenAmount))" "ethAmount \<noteq> 0"
    and r': "r = swapEvent_create (io_now env) buyer ethAmount tokenAmount blk tx (lg_index event)"
    by (auto simp: processSwapEvent_tables)
  have "tokenAmount div ethAmount * ethAmount \<le> tokenAmount" by simp
  moreover have "tokenAmount < (tokenAmount div ethAmount + 1) * ethAmount"
    using p(2) by (metis Suc_eq_plus1 dividend_less_div_times mult.commute mult_Suc neq0_conv)
  ultimately show ?thesis using p r' by (simp add: swapEvent_create_def)
qed

theorem stored_rate_witness:
  "\<lparr>se_txHash = ''0xt1'', se_blockNumber = 100, se_blockHash = ''0xb1'', se_buyer = ''0xab'',
     se_ethAmount = 2, se_tokenAmount = 5, se_tokensPerEth = 2, se_logIndex = 0, se_createdAt = 1000\<rparr>
     \<in> set (swapEvents (processSwapEvent fixture_io (fixture_log 2 5) fixture_state)) \<and>
   \<lparr>se_txHash = ''0xt1'', se_blockNumber = 100, se_blockHash = ''0xb1'', se_buyer = ''0xab'',
     se_ethAmount = 2, se_tokenAmount = 5, se_tokensPerEth = 2, se_logIndex = 0, se_createdAt = 1000\<rparr>
     \<notin> set (swapEvents fixture_state) \<and>
   (\<exists>buyer ethAmount tokenAmount.
       lg_parseLog (fixture_log 2 5) = Inr (Some (TokensPurchased buyer ethAmount tokenAmount)) \<and>
       ethAmount \<noteq> 0 \<and> (2::nat) = tokenAmount div ethAmount)"
proof -
  let ?r = "\<lparr>se_txHash = ''0xt1'', se_blockNumber = 100, se_blockHash = ''0xb1'', se_buyer = ''0xab'',
     se_ethAmount = 2, se_tokenAmount = 5, se_tokensPerEth = 2, se_logIndex = 0, se_createdAt = 1000\<rparr>"
  have a: "?r \<in> set (swapEvents (processSwapEvent fixture_io (fixture_log 2 5) fixture_state))"
    by (simp add: fixture_defs run_defs)
  have b: "?r \<notin> set (swapEvents fixture_state)" by (simp add: fixture_state_def)
  from stored_rate[OF a b] a b show ?thesis by auto
qed

lemma transaction_update_frame:
  "tx_txHash (transaction_update blk tx r) = tx_txHash r \<and>
   tx_userId (transaction_update blk tx r) = tx_userId r \<and>
   tx_fromAddress (transaction_update blk tx r) = tx_fromAddress r \<and>
   tx_toAddress (transaction_update blk tx r) = tx_toAddress r \<and>
   tx_tokenAddress (transaction_update blk tx r) = tx_tokenAddress r \<and>
   tx_amount (transaction_update blk tx r) = tx_amount r \<and>
   tx_amountInEth (transaction_update blk tx r) = tx_amountInEth r \<and>
   tx_tokenAmount (transaction_update blk tx r) = tx_tokenAmount r \<and>
   tx_type (transaction_update blk tx r) = tx_type r \<and>
   tx_confirmations (transaction_update blk tx r) = tx_confirmations r"
  by (simp add: transaction_update_def)

lemma persist_transactions_nth:
  assumes "i < length (transactions s)"
  shows "i < length (transactions (snd (processSwapEvent_persist env event buyer e t usr s))) \<and>
     (transactions (snd (processSwapEvent_persist env event buyer e t usr s)) ! i = transactions s ! i \<or>
      (\<exists>blk tx. lg_getBlock event = Some blk \<and> lg_getTransactionReceipt event = Some tx \<and>
         tx_txHash (transactions s ! i) = rc_hash tx \<and>
         transactions (snd (processSwapEvent_persist env event buyer e t usr s)) ! i =
           transaction_update blk tx (transactions s ! i)))"
proof (cases "lg_getTransactionReceipt event")
  case None
  then show ?thesis using assms by (simp add: processSwapEvent_persist_def)
next
  case (Some tx)
  show ?thesis
  proof (cases "lg_getBlock event")
    case None
    then show ?thesis using assms Some by (simp add: processSwapEvent_persist_def)
  next
    case (Some blk)
    have len: "i < length (upsert wh cr upd (transactions s))" for wh cr upd
      using assms upsert_length[of "transactions s" wh cr upd] by simp
    show ?thesis
      using assms Some \<open>lg_getTransactionReceipt event = Some tx\<close> len
      by (simp add: processSwapEvent_persist_def Let_def updateMetrics_def logger_def upsert_nth)
  qed
qed

lemma try_transactions_nth:
  assumes "i < length (transactions s)"
  shows "i < length (transactions (snd (processSwapEvent_try env event s))) \<and>
     (transactions (snd (processSwapEvent_try env event s)) ! i = transactions s ! i \<or>
      (\<exists>blk tx. lg_getBlock event = Some blk \<and> lg_getTransactionReceipt event = Some tx \<and>
         tx_txHash (transactions s ! i) = rc_hash tx \<and>
         transactions (snd (processSwapEvent_try env event s)) ! i =
           transaction_update blk tx (transactions s ! i)))"
proof -
  have u: "i < length (transactions (s\<lparr>users := us\<rparr>))" for us using assms by simp
  note p1 = persist_transactions_nth[OF assms, of env event]
  note p2 = persist_transactions_nth[of i "s\<lparr>users := us\<rparr>" env event for us, simplified, OF assms]
  show ?thesis
    using assms p1 p2
    by (auto simp add: processSwapEvent_try_def Let_def split: sum.splits option.splits parsed.splits)
qed

text \<open>
  Claim C8. Handling a swap log leaves every transaction row that was in the table in
  its place, and such a row is either untouched or the result of the update path of
  the upsert on the row of the same hash. In both cases its hash, owning user,
  from, to and token addresses, amounts, type and confirmations are what they were:
  only status, block number, block hash, gas used and gas price can change.
\<close>

theorem update_path_frame:
  "i < length (transactions s) \<Longrightarrow>
     i < length (transactions (processSwapEvent env event s)) \<and>
     (transactions (processSwapEvent env event s) ! i = transactions s ! i \<or>
      (\<exists>blk tx. lg_getBlock event = Some blk \<and> lg_getTransactionReceipt event = Some tx \<and>
         tx_txHash (transactions s ! i) = rc_hash tx \<and>
         transactions (processSwapEvent env event s) ! i = transaction_update blk tx (transactions s ! i))) \<and>
     tx_txHash (transactions (processSwapEvent env event s) ! i) = tx_txHash (transactions s ! i) \<and>
     tx_userId (transactions (processSwapEvent env event s) ! i) = tx_userId (transactions s ! i) \<and>
     tx_fromAddress (transactions (processSwapEvent env event s) ! i) = tx_fromAddress (transactions s ! i) \<and>
     tx_toAddress (transactions (processSwapEvent env event s) ! i) = tx_toAddress (transactions s ! i) \<and>
     tx_tokenAddress (transactions (processSwapEvent env event s) ! i) = tx_tokenAddress (transactions s ! i) \<and>
     tx_amount (transactions (processSwapEvent env event s) ! i) = tx_amount (transactions s ! i) \<and>
     tx_amountInEth (transactions (processSwapEvent env event s) ! i) = tx_amountInEth (transactions s ! i) \<and>
     tx_tokenAmount (transactions (processSwapEvent env event s) ! i) = tx_tokenAmount (transactions s ! i) \<and>
     tx_type (transactions (processSwapEvent env event s) ! i) = tx_type (transactions s ! i) \<and>
     tx_confirmations (transactions (processSwapEvent env event s) ! i) = tx_confirmations (transactions s ! i)"
proof -
  assume i: "i < length (transactions s)"
  from try_transactions_nth[OF i, of env event]
  show ?thesis
    unfolding processSwapEvent_tables
    using transaction_update_frame by (elim conjE disjE exE) simp_all
qed

theorem update_path_frame_witness:
  "(0::nat) < length (transactions fixture_pending_state) \<and>
   tx_status (transactions fixture_pending_state ! 0) = PENDING \<and>
   tx_status (transactions (processSwapEvent fixture_io (fixture_log 2 5) fixture_pending_state) ! 0) = CONFIRMED \<and>
   tx_userId (transactions (processSwapEvent fixture_io (fixture_log 2 5) fixture_pending_state) ! 0) = 7 \<and>
   tx_fromAddress (transactions (processSwapEvent fixture_io (fixture_log 2 5) fixture_pending_state) ! 0) = ''0xfeed'' \<and>
   tx_amount (transactions (processSwapEvent fixture_io (fixture_log 2 5) fixture_pending_state) ! 0) = 9"
proof -
  have h: "(0::nat) < length (transactions fixture_pending_state)"
    by (simp add: fixture_pending_state_def)
  have st: "tx_status (transactions (processSwapEvent fixture_io (fixture_log 2 5) fixture_pending_state) ! 0) = CONFIRMED"
    by (simp add: fixture_defs2 run_defs)
  from update_path_frame[OF h, of fixture_io "fixture_log 2 5"] h st show ?thesis
    by (simp add: fixture_pending_state_def)
qed

lemma transaction_update_idem:
  "transaction_update blk tx (transaction_update blk tx r) = transaction_update blk tx r"
  by (simp add: transaction_update_def split: option.splits)

lemma transaction_update_create:
  "transaction_update blk tx (transaction_create usr buyer e t blk tx) = transaction_create usr buyer e t blk tx"
  by (simp add: transaction_update_def transaction_create_def split: option.splits)

lemma transaction_upsert_fixed:
  "upsert (\<lambda>r. tx_txHash r = rc_hash tx) cr' (transaction_update blk tx)
     (upsert (\<lambda>r. tx_txHash r = rc_hash tx) (transaction_create usr buyer e t blk tx) (transaction_update blk tx) tbl)
   = upsert (\<lambda>r. tx_txHash r = rc_hash tx) (transaction_create usr buyer e t blk tx) (transaction_update blk tx) tbl"
  by (rule upsert_fixed)
     (simp_all add: transaction_update_idem transaction_update_create,
      simp_all add: transaction_update_def transaction_create_def)

lemma swapEvent_upsert_fixed:
  "wh cr \<Longrightarrow> upsert wh cr' (\<lambda>r. r) (upsert wh cr (\<lambda>r. r) tbl) = upsert wh cr (\<lambda>r. r) tbl"
  by (rule upsert_fixed) simp_all

lemma swapEvent_create_key:
  "se_txHash (swapEvent_create now buyer e t blk tx idx) = rc_hash tx \<and>
   se_logIndex (swapEvent_create now buyer e t blk tx idx) = idx"
  by (simp add: swapEvent_create_def)

lemma persist_completed:
  assumes "processSwapEvent_persist env event buyer e t usr s = (None, s1)"
  shows "\<exists>blk tx. lg_getBlock event = Some blk \<and> lg_getTransactionReceipt event = Some tx \<and> e \<noteq> 0 \<and>
           users s1 = users s \<and>
           transactions s1 = upsert (\<lambda>r. tx_txHash r = rc_hash tx) (transaction_create usr buyer e t blk tx)
                               (transaction_update blk tx) (transactions s) \<and>
           swapEvents s1 = upsert (\<lambda>r. se_txHash r = rc_hash tx \<and> se_logIndex r = lg_index event)
                             (swapEvent_create (io_now env) buyer e t blk tx (lg_index event)) (\<lambda>r. r) (swapEvents s)"
  using assms
  by (auto simp add: processSwapEvent_persist_def Let_def updateMetrics_def logger_def
      split: option.splits if_splits)

lemma try_completed:
  assumes "processSwapEvent_try env event s = (None, s1)"
  shows "(lg_parseLog event = Inr None \<and> s1 = s) \<or>
     (\<exists>buyer e t usr blk tx.
        lg_parseLog event = Inr (Some (TokensPurchased buyer e t)) \<and>
        lg_getBlock event = Some blk \<and> lg_getTransactionReceipt event = Some tx \<and> e \<noteq> 0 \<and>
        list_ex (\<lambda>u. u_walletAddress u = toLowerCase buyer) (users s1) \<and>
        transactions s1 = upsert (\<lambda>r. tx_txHash r = rc_hash tx) (transaction_create usr buyer e t blk tx)
                               (transaction_update blk tx) (transactions s) \<and>
        swapEvents s1 = upsert (\<lambda>r. se_txHash r = rc_hash tx \<and> se_logIndex r = lg_index event)
                             (swapEvent_create (io_now env) buyer e t blk tx (lg_index event)) (\<lambda>r. r) (swapEvents s))"
proof (cases "lg_parseLog event")
  case (Inl x)
  then show ?thesis using assms by (simp add: processSwapEvent_try_def)
next
  case (Inr po)
  show ?thesis
  proof (cases po)
    case None
    then show ?thesis using assms Inr by (simp add: processSwapEvent_try_def)
  next
    case (Some p)
    show ?thesis
    proof (cases p)
      case (TokensPurchased buyer e t)
      note pl = Inr[unfolded Some TokensPurchased]
      show ?thesis
      proof (cases "findUnique (\<lambda>u. u_walletAddress u = toLowerCase buyer) (users s)")
        case None
        let ?usr = "\<lparr>u_id = fresh_id (users s), u_walletAddress = toLowerCase buyer\<rparr>"
        from assms pl None
        have "processSwapEvent_persist env event buyer e t ?usr (s\<lparr>users := users s @ [?usr]\<rparr>) = (None, s1)"
          by (simp add: processSwapEvent_try_def Let_def split: if_splits)
        from persist_completed[OF this] pl show ?thesis
          by (auto simp: list_ex_iff)
      next
        case (Some usr)
        from assms pl Some
        have "processSwapEvent_persist env event buyer e t usr s = (None, s1)"
          by (simp add: processSwapEvent_try_def Let_def split: if_splits)
        from persist_completed[OF this] pl findUnique_Some[OF Some] show ?thesis
          by (auto simp: list_ex_iff)
      qed
    qed (use assms Inr Some in \<open>simp_all add: processSwapEvent_try_def\<close>)
  qed
qed

lemma persist_settled:
  assumes "lg_getBlock event = Some blk" "lg_getTransactionReceipt event = Some tx"
    and "transactions s1 = upsert (\<lambda>r. tx_txHash r = rc_hash tx) (transaction_create usr0 buyer e t blk tx)
                               (transaction_update blk tx) tbl"
    and "swapEvents s1 = upsert (\<lambda>r. se_txHash r = rc_hash tx \<and> se_logIndex r = lg_index event)
                             (swapEvent_create now0 buyer e t blk tx (lg_index event)) (\<lambda>r. r) tbl'"
  shows "transactions (snd (processSwapEvent_persist env2 event buyer e t usr s1)) = transactions s1 \<and>
         swapEvents (snd (processSwapEvent_persist env2 event buyer e t usr s1)) = swapEvents s1 \<and>
         users (snd (processSwapEvent_persist env2 event buyer e t usr s1)) = users s1"
  using assms
  by (simp add: processSwapEvent_persist_def Let_def updateMetrics_def logger_def
      transaction_upsert_fixed swapEvent_upsert_fixed swapEvent_create_key)

text \<open>
  Claim C3. Once a log has been handled to the end, handling the same log again, at
  any later time and whatever the outside then does, changes no row of the tables of
  users, transactions and swap events. If the table held at most one swap-event row
  under the key of the log before, it holds exactly one afterwards.
\<close>

theorem reprocessing_idempotent:
  "processSwapEvent_try env1 event s = (None, s1) \<Longrightarrow>
     transactions (processSwapEvent env2 event s1) = transactions s1 \<and>
     swapEvents (processSwapEvent env2 event s1) = swapEvents s1 \<and>
     users (processSwapEvent env2 event s1) = users s1 \<and>
     (\<forall>buyer e t tx.
        lg_parseLog event = Inr (Some (TokensPurchased buyer e t)) \<and>
        lg_getTransactionReceipt event = Some tx \<and>
        length (filter (\<lambda>r. se_txHash r = rc_hash tx \<and> se_logIndex r = lg_index event) (swapEvents s)) \<le> 1 \<longrightarrow>
        length (filter (\<lambda>r. se_txHash r = rc_hash tx \<and> se_logIndex r = lg_index event)
                  (swapEvents (processSwapEvent env2 event s1))) = 1)"
proof -
  assume first: "processSwapEvent_try env1 event s = (None, s1)"
  from try_completed[OF first] show ?thesis
  proof (elim disjE exE conjE)
    assume n: "lg_parseLog event = Inr None" "s1 = s"
    then show ?thesis by (simp add: processSwapEvent_def processSwapEvent_try_def)
  next
    fix buyer e t usr blk tx
    assume pl: "lg_parseLog event = Inr (Some (TokensPurchased buyer e t))"
      and b: "lg_getBlock event = Some blk" and rc: "lg_getTransactionReceipt event = Some tx"
      and e: "e \<noteq> 0"
      and u: "list_ex (\<lambda>u. u_walletAddress u = toLowerCase buyer) (users s1)"
      and T: "transactions s1 = upsert (\<lambda>r. tx_txHash r = rc_hash tx) (transaction_create usr buyer e t blk tx)
                               (transaction_update blk tx) (transactions s)"
      and S: "swapEvents s1 = upsert (\<lambda>r. se_txHash r = rc_hash tx \<and> se_logIndex r = lg_index event)
                             (swapEvent_create (io_now env1) buyer e t blk tx (lg_index event)) (\<lambda>r. r) (swapEvents s)"
    from u obtain usr2 where f: "findUnique (\<lambda>u. u_walletAddress u = toLowerCase buyer) (users s1) = Some usr2"
      using findUnique_None[of "\<lambda>u. u_walletAddress u = toLowerCase buyer" "users s1"] by (cases "findUnique (\<lambda>u. u_walletAddress u = toLowerCase buyer) (users s1)") auto
    have tables: "transactions (snd (processSwapEvent_try env2 event s1)) = transactions s1 \<and>
         swapEvents (snd (processSwapEvent_try env2 event s1)) = swapEvents s1 \<and>
         users (snd (processSwapEvent_try env2 event s1)) = users s1"
      using pl f persist_settled[OF b rc T S, of env2 usr2]
      by (simp add: processSwapEvent_try_def)
    have one: "length (filter (\<lambda>r. se_txHash r = rc_hash tx \<and> se_logIndex r = lg_index event) (swapEvents s1)) = 1"
      if le: "length (filter (\<lambda>r. se_txHash r = rc_hash tx \<and> se_logIndex r = lg_index event) (swapEvents s)) \<le> 1"
    proof (cases "list_ex (\<lambda>r. se_txHash r = rc_hash tx \<and> se_logIndex r = lg_index event) (swapEvents s)")
      case True
      then have "filter (\<lambda>r. se_txHash r = rc_hash tx \<and> se_logIndex r = lg_index event) (swapEvents s) \<noteq> []"
        by (auto simp: list_ex_iff filter_empty_conv)
      then have "0 < length (filter (\<lambda>r. se_txHash r = rc_hash tx \<and> se_logIndex r = lg_index event) (swapEvents s))"
        by simp
      with le have "length (filter (\<lambda>r. se_txHash r = rc_hash tx \<and> se_logIndex r = lg_index event) (swapEvents s)) = 1"
        by linarith
      with True S show ?thesis by (simp add: upsert_id)
    next
      case False
      then have "filter (\<lambda>r. se_txHash r = rc_hash tx \<and> se_logIndex r = lg_index event) (swapEvents s) = []"
        by (auto simp: list_ex_iff filter_empty_conv)
      with False S show ?thesis by (simp add: upsert_id swapEvent_create_key)
    qed
    show ?thesis using tables one pl rc by (simp add: processSwapEvent_tables)
  qed
qed

theorem reprocessing_idempotent_witness:
  "processSwapEvent_try fixture_io (fixture_log 2 5) fixture_state =
     (None, snd (processSwapEvent_try fixture_io (fixture_log 2 5) fixture_state)) \<and>
   length (swapEvents (snd (processSwapEvent_try fixture_io (fixture_log 2 5) fixture_state))) = 1 \<and>
   swapEvents (processSwapEvent (fixture_io\<lparr>io_now := 9000\<rparr>) (fixture_log 2 5)
       (snd (processSwapEvent_try fixture_io (fixture_log 2 5) fixture_state))) =
     swapEvents (snd (processSwapEvent_try fixture_io (fixture_log 2 5) fixture_state)) \<and>
   transactions (processSwapEvent (fixture_io\<lparr>io_now := 9000\<rparr>) (fixture_log 2 5)
       (snd (processSwapEvent_try fixture_io (fixture_log 2 5) fixture_state))) =
     transactions (snd (processSwapEvent_try fixture_io (fixture_log 2 5) fixture_state)) \<and>
   length (filter (\<lambda>r. se_txHash r = ''0xt1'' \<and> se_logIndex r = 0)
     (swapEvents (processSwapEvent (fixture_io\<lparr>io_now := 9000\<rparr>) (fixture_log 2 5)
       (snd (processSwapEvent_try fixture_io (fixture_log 2 5) fixture_state))))) = 1"
proof -
  let ?s1 = "snd (processSwapEvent_try fixture_io (fixture_log 2 5) fixture_state)"
  have "fst (processSwapEvent_try fixture_io (fixture_log 2 5) fixture_state) = None"
    by (simp add: fixture_defs run_defs)
  then have h: "processSwapEvent_try fixture_io (fixture_log 2 5) fixture_state = (None, ?s1)"
    by (metis prod.collapse)
  have one: "length (swapEvents ?s1) = 1" by (simp add: fixture_defs run_defs)
  have p: "lg_parseLog (fixture_log 2 5) = Inr (Some (TokensPurchased ''0xAb'' 2 5))"
    "lg_getTransactionReceipt (fixture_log 2 5) = Some fixture_receipt"
    "length (filter (\<lambda>r. se_txHash r = rc_hash fixture_receipt \<and> se_logIndex r = lg_index (fixture_log 2 5))
        (swapEvents fixture_state)) \<le> 1"
    "rc_hash fixture_receipt = ''0xt1''" "lg_index (fixture_log 2 5) = 0"
    by (simp_all add: fixture_defs)
  note R = reprocessing_idempotent[OF h, of "fixture_io\<lparr>io_now := 9000\<rparr>"]
  have cnt: "length (filter (\<lambda>r. se_txHash r = rc_hash fixture_receipt \<and> se_logIndex r = lg_index (fixture_log 2 5))
     (swapEvents (processSwapEvent (fixture_io\<lparr>io_now := 9000\<rparr>) (fixture_log 2 5) ?s1))) = 1"
    using R p(1,2,3) by blast
  show ?thesis using h one R cnt[unfolded p(4,5)] by blast
qed

subsection \<open>A block range\<close>



lemma processSwapEvent_rateUpdates:
  "rateUpdates (processSwapEvent env event s) = rateUpdates s"
proof -
  have p: "rateUpdates (snd (processSwapEvent_persist env event b e t usr s)) = rateUpdates s" for b e t usr s
    by (simp add: processSwapEvent_persist_def Let_def updateMetrics_def logger_def split: option.splits)
  have "rateUpdates (snd (processSwapEvent_try env event s)) = rateUpdates s"
    by (simp add: processSwapEvent_try_def Let_def p split: sum.splits option.splits parsed.splits)
  then show ?thesis
    by (simp add: processSwapEvent_fields)
qed

lemma processSwapEvent_cursor:
  "lastProcessedBlock (processSwapEvent env event s) = lastProcessedBlock s \<and>
   memoryCache (processSwapEvent env event s) ''indexer:lastBlock'' = memoryCache s ''indexer:lastBlock'' \<and>
   isRunning (processSwapEvent env event s) = isRunning s"
proof -
  have p: "lastProcessedBlock (snd (processSwapEvent_persist env event b e t usr s)) = lastProcessedBlock s \<and>
      memoryCache (snd (processSwapEvent_persist env event b e t usr s)) ''indexer:lastBlock'' = memoryCache s ''indexer:lastBlock'' \<and>
      isRunning (snd (processSwapEvent_persist env event b e t usr s)) = isRunning s" for b e t usr s
    by (simp add: processSwapEvent_persist_def Let_def updateMetrics_def logger_def cache_del_def split: option.splits)
  have "lastProcessedBlock (snd (processSwapEvent_try env event s)) = lastProcessedBlock s \<and>
      memoryCache (snd (processSwapEvent_try env event s)) ''indexer:lastBlock'' = memoryCache s ''indexer:lastBlock'' \<and>
      isRunning (snd (processSwapEvent_try env event s)) = isRunning s"
    by (simp add: processSwapEvent_try_def Let_def p split: sum.splits option.splits parsed.splits)
  then show ?thesis
    by (simp add: processSwapEvent_fields)
qed

lemma processRateUpdateEvent_frame:
  "swapEvents (processRateUpdateEvent env event s) = swapEvents s \<and>
   transactions (processRateUpdateEvent env event s) = transactions s \<and>
   users (processRateUpdateEvent env event s) = users s \<and>
   lastProcessedBlock (processRateUpdateEvent env event s) = lastProcessedBlock s \<and>
   memoryCache (processRateUpdateEvent env event s) ''indexer:lastBlock'' = memoryCache s ''indexer:lastBlock'' \<and>
   isRunning (processRateUpdateEvent env event s) = isRunning s"
  by (simp add: processRateUpdateEvent_def processRateUpdateEvent_try_def Let_def logger_def cache_del_def
      split: sum.splits option.splits parsed.splits)



lemma processSwapEvents_frame:
  "rateUpdates (processSwapEvents evs s) = rateUpdates s \<and>
   lastProcessedBlock (processSwapEvents evs s) = lastProcessedBlock s \<and>
   memoryCache (processSwapEvents evs s) ''indexer:lastBlock'' = memoryCache s ''indexer:lastBlock'' \<and>
   isRunning (processSwapEvents evs s) = isRunning s"
proof (induction evs arbitrary: s)
  case Nil
  show ?case by simp
next
  case (Cons a evs)
  obtain env event where a: "a = (env, event)" by (cases a)
  show ?case
    using Cons.IH[of "processSwapEvent env event s"]
      processSwapEvent_rateUpdates[of env event s] processSwapEvent_cursor[of env event s]
    by (simp add: a)
qed

lemma processRateUpdateEvents_frame:
  "swapEvents (processRateUpdateEvents evs s) = swapEvents s \<and>
   transactions (processRateUpdateEvents evs s) = transactions s \<and>
   users (processRateUpdateEvents evs s) = users s \<and>
   lastProcessedBlock (processRateUpdateEvents evs s) = lastProcessedBlock s \<and>
   memoryCache (processRateUpdateEvents evs s) ''indexer:lastBlock'' = memoryCache s ''indexer:lastBlock'' \<and>
   isRunning (processRateUpdateEvents evs s) = isRunning s"
proof (induction evs arbitrary: s)
  case Nil
  show ?case by simp
next
  case (Cons a evs)
  obtain env event where a: "a = (env, event)" by (cases a)
  show ?case
    using Cons.IH[of "processRateUpdateEvent env event s"] processRateUpdateEvent_frame[of env event s]
    by (simp add: a)
qed
















subsection \<open>The loop\<close>

lemma processBlocks_frame:
  "lastProcessedBlock (snd (processBlocks nd a b s)) = lastProcessedBlock s \<and>
   memoryCache (snd (processBlocks nd a b s)) ''indexer:lastBlock'' = memoryCache s ''indexer:lastBlock'' \<and>
   isRunning (snd (processBlocks nd a b s)) = isRunning s"
  by (simp add: processBlocks_def Let_def logger_def processRateUpdateEvents_frame processSwapEvents_frame
      split: sum.splits)

lemma processBlocks_rejected:
  assumes "nd_swapLogs nd = Inl e \<or> nd_rateLogs nd = Inl e"
  shows "\<exists>e'. fst (processBlocks nd a b s) = Some e' \<and>
     users (snd (processBlocks nd a b s)) = users s \<and>
     transactions (snd (processBlocks nd a b s)) = transactions s \<and>
     swapEvents (snd (processBlocks nd a b s)) = swapEvents s \<and>
     rateUpdates (snd (processBlocks nd a b s)) = rateUpdates s"
  using assms by (auto simp add: processBlocks_def Let_def logger_def split: sum.splits)

lemma processBlocks_accepted:
  assumes "nd_swapLogs nd = Inr hs" "nd_rateLogs nd = Inr hr"
  shows "fst (processBlocks nd a b s) = None"
  using assms by (simp add: processBlocks_def Let_def)

lemma iteration_cases:
  "(\<exists>e. fst (fst (indexLoop_iteration nd s)) = Aborted e \<and> snd (fst (indexLoop_iteration nd s)) = 10000 \<and>
        lastProcessedBlock (snd (indexLoop_iteration nd s)) = lastProcessedBlock s) \<or>
   (fst (indexLoop_iteration nd s) = (Idle, 5000) \<and> snd (indexLoop_iteration nd s) = s) \<or>
   (\<exists>h. lastProcessedBlock s < h \<and> nd_getBlockNumber nd = Inr h \<and>
        fst (indexLoop_iteration nd s) = (Committed (lastProcessedBlock s + 1) h, 5000) \<and>
        lastProcessedBlock (snd (indexLoop_iteration nd s)) = h)"
proof (cases "nd_getBlockNumber nd")
  case (Inl e)
  then show ?thesis by (simp add: indexLoop_iteration_def logger_def)
next
  case (Inr h)
  show ?thesis
  proof (cases "h > lastProcessedBlock s")
    case False
    with Inr show ?thesis by (simp add: indexLoop_iteration_def)
  next
    case True
    obtain r s1 where pb: "processBlocks nd (lastProcessedBlock s + 1) h s = (r, s1)"
      by (cases "processBlocks nd (lastProcessedBlock s + 1) h s")
    from processBlocks_frame[of nd "lastProcessedBlock s + 1" h s] pb
    have c: "lastProcessedBlock s1 = lastProcessedBlock s" by simp
    show ?thesis using Inr True pb c
      by (cases r) (simp_all add: indexLoop_iteration_def logger_def Let_def)
  qed
qed

lemma iteration_isRunning: "isRunning (snd (indexLoop_iteration nd s)) = isRunning s"
proof (cases "nd_getBlockNumber nd")
  case (Inl e)
  then show ?thesis by (simp add: indexLoop_iteration_def logger_def)
next
  case (Inr h)
  obtain r s1 where pb: "processBlocks nd (lastProcessedBlock s + 1) h s = (r, s1)"
    by (cases "processBlocks nd (lastProcessedBlock s + 1) h s")
  from processBlocks_frame[of nd "lastProcessedBlock s + 1" h s] pb
  have c: "isRunning s1 = isRunning s" by simp
  show ?thesis using Inr pb c
    by (cases r) (simp_all add: indexLoop_iteration_def logger_def Let_def)
qed

lemma stop_cursor: "lastProcessedBlock (stop s) = lastProcessedBlock s"
  by (simp add: stop_def logger_def)

lemma indexLoop_stopped: "\<not> isRunning s \<Longrightarrow> indexLoop nds s = ([], s)"
  by (cases nds) simp_all

lemma indexLoop_ranges:
  "indexLoop nds s = (rs, s') \<Longrightarrow>
     lastProcessedBlock s \<le> lastProcessedBlock s' \<and>
     (\<forall>(a, b) \<in> set (committed rs). lastProcessedBlock s < a \<and> a \<le> b \<and> b \<le> lastProcessedBlock s') \<and>
     sorted_wrt (\<lambda>(a, b) (c, d). b < c) (committed rs)"
proof (induction nds arbitrary: s rs s')
  case Nil
  then show ?case by (simp add: committed_def)
next
  case (Cons nd nds)
  show ?case
  proof (cases "isRunning s")
    case False
    with Cons.prems show ?thesis by (simp add: committed_def)
  next
    case True
    obtain r s1 where it: "indexLoop_iteration nd s = (r, s1)" by (cases "indexLoop_iteration nd s")
    define s2 where "s2 = (if nd_stop nd then stop s1 else s1)"
    obtain rs' s3 where rest: "indexLoop nds s2 = (rs', s3)" by (cases "indexLoop nds s2")
    from Cons.prems True it rest have rs: "rs = r # rs'" and s': "s' = s3"
      by (simp_all add: s2_def)
    have c2: "lastProcessedBlock s2 = lastProcessedBlock s1" by (simp add: s2_def stop_cursor)
    note IH = Cons.IH[OF rest, unfolded c2]
    obtain c d where rcd: "r = (c, d)" by (cases r)
    from iteration_cases[of nd s] it[unfolded rcd]
    consider (same) "committed [r] = []" "lastProcessedBlock s1 = lastProcessedBlock s"
      | (adv) h where "lastProcessedBlock s < h" "committed [r] = [(lastProcessedBlock s + 1, h)]"
          "lastProcessedBlock s1 = h"
      unfolding rcd by (auto simp: committed_def)
    then show ?thesis
    proof cases
      case same
      have "committed rs = committed rs'" using same(1) by (simp add: rs committed_def)
      with IH same(2) show ?thesis by (simp add: s')
    next
      case adv
      have cr: "committed rs = (lastProcessedBlock s + 1, h) # committed rs'"
        using adv(2) by (simp add: rs committed_def)
      from IH adv show ?thesis unfolding cr s' by (auto simp: adv(3))
    qed
  qed
qed

lemma indexLoop_append:
  "snd (indexLoop (xs @ ys) s) = snd (indexLoop ys (snd (indexLoop xs s)))"
proof (induction xs arbitrary: s)
  case Nil
  show ?case by simp
next
  case (Cons nd xs)
  show ?case
  proof (cases "isRunning s")
    case False
    then show ?thesis by (simp add: indexLoop_stopped)
  next
    case True
    then show ?thesis using Cons.IH by (simp add: split_beta Let_def)
  qed
qed

text \<open>
  Claim C9. Over any sequence of passes of the loop, failing or not, the cursor never
  goes down: it is at least its initial value at the end, and also from any prefix of
  the sequence to any longer prefix. Every committed range starts above the cursor
  the loop began with, is non-empty and ends at most at the final cursor, and each
  committed range lies strictly above the one committed before it.
\<close>

theorem cursor_never_regresses:
  "indexLoop nds s = (rs, s') \<Longrightarrow>
     lastProcessedBlock s \<le> lastProcessedBlock s' \<and>
     (\<forall>i j. i \<le> j \<longrightarrow>
        lastProcessedBlock (snd (indexLoop (take i nds) s)) \<le> lastProcessedBlock (snd (indexLoop (take j nds) s))) \<and>
     (\<forall>(a, b) \<in> set (committed rs). lastProcessedBlock s < a \<and> a \<le> b \<and> b \<le> lastProcessedBlock s') \<and>
     sorted_wrt (\<lambda>(a, b) (c, d). b < c) (committed rs)"
proof -
  assume run: "indexLoop nds s = (rs, s')"
  have pre: "lastProcessedBlock (snd (indexLoop (take i nds) s)) \<le> lastProcessedBlock (snd (indexLoop (take j nds) s))"
    if "i \<le> j" for i j
  proof -
    have "take j nds = take i nds @ drop i (take j nds)"
      using that by (metis append_take_drop_id min.absorb1 take_take)
    then have "snd (indexLoop (take j nds) s) = snd (indexLoop (drop i (take j nds)) (snd (indexLoop (take i nds) s)))"
      using indexLoop_append by metis
    moreover obtain rs2 s2 where "indexLoop (drop i (take j nds)) (snd (indexLoop (take i nds) s)) = (rs2, s2)"
      by (cases "indexLoop (drop i (take j nds)) (snd (indexLoop (take i nds) s))")
    ultimately show ?thesis using indexLoop_ranges by fastforce
  qed
  from indexLoop_ranges[OF run] pre show ?thesis by blast
qed

theorem cursor_never_regresses_witness:
  "indexLoop [(fixture_node 100 [])\<lparr>nd_rateLogs := Inl RpcError\<rparr>, fixture_node 100 [], fixture_node 100 [],
              fixture_node 98 [], fixture_node 105 []] fixture_state =
     ([(Aborted RpcError, 10000), (Committed 100 100, 5000), (Idle, 5000), (Idle, 5000), (Committed 101 105, 5000)],
      snd (indexLoop [(fixture_node 100 [])\<lparr>nd_rateLogs := Inl RpcError\<rparr>, fixture_node 100 [], fixture_node 100 [],
              fixture_node 98 [], fixture_node 105 []] fixture_state)) \<and>
   committed [(Aborted RpcError, 10000), (Committed 100 100, 5000), (Idle, 5000), (Idle, 5000), (Committed 101 105, 5000)]
     = [(100, 100), (101, 105)] \<and>
   lastProcessedBlock fixture_state = 99 \<and>
   lastProcessedBlock (snd (indexLoop [(fixture_node 100 [])\<lparr>nd_rateLogs := Inl RpcError\<rparr>, fixture_node 100 [],
              fixture_node 100 [], fixture_node 98 [], fixture_node 105 []] fixture_state)) = 105 \<and>
   sorted_wrt (\<lambda>(a, b) (c, d). b < c)
     (committed [(Aborted RpcError, 10000), (Committed 100 100, 5000), (Idle, 5000), (Idle, 5000), (Committed 101 105, 5000)])"
proof -
  let ?nds = "[(fixture_node 100 [])\<lparr>nd_rateLogs := Inl RpcError\<rparr>, fixture_node 100 [], fixture_node 100 [],
              fixture_node 98 [], fixture_node 105 []]"
  let ?rs = "[(Aborted RpcError, 10000), (Committed 100 100, 5000), (Idle, 5000), (Idle, 5000), (Committed 101 105, 5000)]"
  have "fst (indexLoop ?nds fixture_state) = ?rs"
    by (simp add: fixture_node_def fixture_state_def loop_defs logger_def Let_def)
  then have h: "indexLoop ?nds fixture_state = (?rs, snd (indexLoop ?nds fixture_state))"
    by (metis prod.collapse)
  have c: "committed ?rs = [(100, 100), (101, 105)]" by (simp add: committed_def)
  have e: "lastProcessedBlock (snd (indexLoop ?nds fixture_state)) = 105" "lastProcessedBlock fixture_state = 99"
    by (simp_all add: fixture_node_def fixture_state_def loop_defs logger_def Let_def)
  from cursor_never_regresses[OF h] have "sorted_wrt (\<lambda>(a, b) (c, d). b < c) (committed ?rs)" by blast
  with h c e show ?thesis by blast
qed

lemma fixture_cycle_result:
  "indexLoop_iteration (fixture_node 100 fixture_held) fixture_state =
     ((Committed 100 100, 5000),
      \<lparr>users = [\<lparr>u_id = 1, u_walletAddress = ''0xab''\<rparr>],
       transactions =
         [\<lparr>tx_txHash = ''0xt1'', tx_userId = 1, tx_fromAddress = ''0xab'',
           tx_toAddress = ''0xa451b908c7ad183abd55f8ad48c055da8cb4264d'',
           tx_tokenAddress = ''0xa451b908c7ad183abd55f8ad48c055da8cb4264d'',
           tx_amount = 2, tx_amountInEth = 2, tx_tokenAmount = 5,
           tx_type = SWAP_ETH_TO_TOKEN, tx_status = CONFIRMED,
           tx_blockNumber = Some 100, tx_blockHash = Some ''0xb1'',
           tx_gasUsed = Some 21000, tx_gasPrice = Some 5, tx_confirmations = 0\<rparr>],
       swapEvents =
         [\<lparr>se_txHash = ''0xt1'', se_blockNumber = 100, se_blockHash = ''0xb1'', se_buyer = ''0xab'',
           se_ethAmount = 2, se_tokenAmount = 5, se_tokensPerEth = 2, se_logIndex = 0,
           se_createdAt = 1000\<rparr>],
       rateUpdates = [], tokenMetricsTable = [], leaderboardTable = [],
       memoryCache = [''indexer:lastBlock'' \<mapsto> \<lparr>ce_value = NumText 100, ce_expires = None\<rparr>],
       lastProcessedBlock = 100, isRunning = True,
       logs =
         [InfoN ''Processing blocks'' [100, 100],
          Error ''Error processing swap event:'' TypeError,
          Error ''Error processing swap event:'' DbError,
          Info ''Processed swap event: 0xt1'',
          InfoN ''Processed swap events and rate updates'' [3, 0]]\<rparr>)"
  by (simp add: fixture_defs3 run_defs loop_defs)

text \<open>
  Claim C1, as stated, fails on the code: a log that does not decode and a log whose
  swap-event upsert is rejected are both in the range 100 to 100, both failures are
  caught and logged inside \<^verbatim>\<open>processSwapEvent\<close>, the pass is not aborted, it sleeps the
  ordinary 5 seconds, and the cursor and the cached \<^verbatim>\<open>indexer:lastBlock\<close> advance from
  99 to 100.
\<close>

theorem per_log_failure_advances_cursor:
  "lg_parseLog fixture_bad_log = Inl TypeError \<and>
   nd_getBlockNumber (fixture_node 100 fixture_held) = Inr 100 \<and>
   nd_swapLogs (fixture_node 100 fixture_held) = Inr fixture_held \<and>
   lastProcessedBlock fixture_state = 99 \<and>
   memoryCache fixture_state ''indexer:lastBlock'' = None \<and>
   fst (indexLoop_iteration (fixture_node 100 fixture_held) fixture_state) = (Committed 100 100, 5000) \<and>
   lastProcessedBlock (snd (indexLoop_iteration (fixture_node 100 fixture_held) fixture_state)) = 100 \<and>
   memoryCache (snd (indexLoop_iteration (fixture_node 100 fixture_held) fixture_state)) ''indexer:lastBlock'' =
     Some \<lparr>ce_value = NumText 100, ce_expires = None\<rparr> \<and>
   map se_logIndex (swapEvents (snd (indexLoop_iteration (fixture_node 100 fixture_held) fixture_state))) = [0] \<and>
   logs (snd (indexLoop_iteration (fixture_node 100 fixture_held) fixture_state)) =
     [InfoN ''Processing blocks'' [100, 100],
      Error ''Error processing swap event:'' TypeError,
      Error ''Error processing swap event:'' DbError,
      Info ''Processed swap event: 0xt1'',
      InfoN ''Processed swap events and rate updates'' [3, 0]]"
  by (simp add: fixture_cycle_result)
     (simp add: fixture_bad_log_def fixture_node_def fixture_state_def)

text \<open>
  Claim C1, amended. When reading the chain height fails, or the height is above the
  cursor and one of the two log queries fails, the pass is aborted before any log is
  handled: the cursor, the cached \<^verbatim>\<open>indexer:lastBlock\<close> and the tables of users,
  transactions, swap events and rate updates keep their values, and the loop sleeps 10
  seconds. A next pass whose queries succeed at a height above the cursor commits the
  range that starts at the same block, cursor + 1.
\<close>

theorem fetch_failure_keeps_cursor:
  "nd_getBlockNumber nd = Inl err \<or>
   (\<exists>h. nd_getBlockNumber nd = Inr h \<and> lastProcessedBlock s < h \<and>
        (nd_swapLogs nd = Inl err \<or> nd_rateLogs nd = Inl err)) \<Longrightarrow>
   (\<exists>e. fst (indexLoop_iteration nd s) = (Aborted e, 10000)) \<and>
   lastProcessedBlock (snd (indexLoop_iteration nd s)) = lastProcessedBlock s \<and>
   memoryCache (snd (indexLoop_iteration nd s)) ''indexer:lastBlock'' = memoryCache s ''indexer:lastBlock'' \<and>
   users (snd (indexLoop_iteration nd s)) = users s \<and>
   transactions (snd (indexLoop_iteration nd s)) = transactions s \<and>
   swapEvents (snd (indexLoop_iteration nd s)) = swapEvents s \<and>
   rateUpdates (snd (indexLoop_iteration nd s)) = rateUpdates s \<and>
   (\<forall>nd2 h2 hs hr.
      nd_getBlockNumber nd2 = Inr h2 \<and> lastProcessedBlock s < h2 \<and>
      nd_swapLogs nd2 = Inr hs \<and> nd_rateLogs nd2 = Inr hr \<longrightarrow>
      fst (indexLoop_iteration nd2 (snd (indexLoop_iteration nd s))) =
        (Committed (lastProcessedBlock s + 1) h2, 5000))"
proof -
  assume fail: "nd_getBlockNumber nd = Inl err \<or>
   (\<exists>h. nd_getBlockNumber nd = Inr h \<and> lastProcessedBlock s < h \<and>
        (nd_swapLogs nd = Inl err \<or> nd_rateLogs nd = Inl err))"
  let ?s' = "snd (indexLoop_iteration nd s)"
  have main: "(\<exists>e. fst (indexLoop_iteration nd s) = (Aborted e, 10000)) \<and>
   lastProcessedBlock ?s' = lastProcessedBlock s \<and>
   memoryCache ?s' ''indexer:lastBlock'' = memoryCache s ''indexer:lastBlock'' \<and>
   users ?s' = users s \<and> transactions ?s' = transactions s \<and>
   swapEvents ?s' = swapEvents s \<and> rateUpdates ?s' = rateUpdates s"
  proof -
    from fail consider (height) "nd_getBlockNumber nd = Inl err"
      | (query) h where "nd_getBlockNumber nd = Inr h" "lastProcessedBlock s < h"
          "nd_swapLogs nd = Inl err \<or> nd_rateLogs nd = Inl err"
      by blast
    then show ?thesis
    proof cases
      case height
      then show ?thesis by (simp add: indexLoop_iteration_def logger_def)
    next
      case query
      note h = query(1,2) and q = query(3)
    obtain r s1 where pb: "processBlocks nd (lastProcessedBlock s + 1) h s = (r, s1)"
      by (cases "processBlocks nd (lastProcessedBlock s + 1) h s")
    from processBlocks_rejected[OF q, of "lastProcessedBlock s + 1" h s]
      processBlocks_frame[of nd "lastProcessedBlock s + 1" h s] pb
      show ?thesis using h by (auto simp add: indexLoop_iteration_def logger_def)
    qed
  qed
  have next_cycle: "fst (indexLoop_iteration nd2 ?s') = (Committed (lastProcessedBlock s + 1) h2, 5000)"
    if "nd_getBlockNumber nd2 = Inr h2" "lastProcessedBlock s < h2" "nd_swapLogs nd2 = Inr hs" "nd_rateLogs nd2 = Inr hr"
    for nd2 h2 hs hr
  proof -
    have c: "lastProcessedBlock ?s' = lastProcessedBlock s" using main by simp
    obtain r s1 where pb: "processBlocks nd2 (lastProcessedBlock s + 1) h2 ?s' = (r, s1)"
      by (cases "processBlocks nd2 (lastProcessedBlock s + 1) h2 ?s'")
    with processBlocks_accepted[OF that(3,4), of "lastProcessedBlock s + 1" h2 ?s'] have "r = None" by simp
    with pb that c show ?thesis by (simp add: indexLoop_iteration_def Let_def)
  qed
  from main next_cycle show ?thesis by blast
qed

theorem fetch_failure_keeps_cursor_witness:
  "nd_getBlockNumber ((fixture_node 100 fixture_held)\<lparr>nd_swapLogs := Inl RpcError\<rparr>) = Inr 100 \<and>
   lastProcessedBlock fixture_state < 100 \<and>
   nd_swapLogs ((fixture_node 100 fixture_held)\<lparr>nd_swapLogs := Inl RpcError\<rparr>) = Inl RpcError \<and>
   fst (indexLoop_iteration ((fixture_node 100 fixture_held)\<lparr>nd_swapLogs := Inl RpcError\<rparr>) fixture_state)
     = (Aborted RpcError, 10000) \<and>
   lastProcessedBlock (snd (indexLoop_iteration ((fixture_node 100 fixture_held)\<lparr>nd_swapLogs := Inl RpcError\<rparr>)
     fixture_state)) = 99 \<and>
   swapEvents (snd (indexLoop_iteration ((fixture_node 100 fixture_held)\<lparr>nd_swapLogs := Inl RpcError\<rparr>)
     fixture_state)) = [] \<and>
   fst (indexLoop_iteration (fixture_node 102 fixture_held)
     (snd (indexLoop_iteration ((fixture_node 100 fixture_held)\<lparr>nd_swapLogs := Inl RpcError\<rparr>) fixture_state)))
     = (Committed 100 102, 5000)"
proof -
  let ?nd = "(fixture_node 100 fixture_held)\<lparr>nd_swapLogs := Inl RpcError\<rparr>"
  have h: "nd_getBlockNumber ?nd = Inr 100" "lastProcessedBlock fixture_state < 100"
    "nd_swapLogs ?nd = Inl RpcError" "lastProcessedBlock fixture_state = 99" "swapEvents fixture_state = []"
    by (simp_all add: fixture_node_def fixture_state_def)
  then have pre: "nd_getBlockNumber ?nd = Inl RpcError \<or>
     (\<exists>h. nd_getBlockNumber ?nd = Inr h \<and> lastProcessedBlock fixture_state < h \<and>
        (nd_swapLogs ?nd = Inl RpcError \<or> nd_rateLogs ?nd = Inl RpcError))"
    by blast
  have n2: "nd_getBlockNumber (fixture_node 102 fixture_held) = Inr 102" "lastProcessedBlock fixture_state < 102"
    "nd_swapLogs (fixture_node 102 fixture_held) = Inr fixture_held"
    "nd_rateLogs (fixture_node 102 fixture_held) = Inr []"
    by (simp_all add: fixture_node_def fixture_state_def)
  have ab: "fst (indexLoop_iteration ?nd fixture_state) = (Aborted RpcError, 10000)"
    by (simp add: fixture_node_def fixture_state_def loop_defs logger_def)
  note T = fetch_failure_keeps_cursor[OF pre]
  from T n2 have nxt: "fst (indexLoop_iteration (fixture_node 102 fixture_held) (snd (indexLoop_iteration ?nd fixture_state)))
     = (Committed (lastProcessedBlock fixture_state + 1) 102, 5000)"
    by blast
  from T h ab nxt show ?thesis by simp
qed

section \<open>Properties of the analytics worker\<close>

lemmas board_defs = calculateLeaderboardForPeriod_def period_bounds_def new_Date_def setHours_def
  setDate_def getTime_def getDay_def getDate_def getMonth_def getFullYear_def Date_of_civil_def
  civil_from_days_def days_from_civil_def msPerDay_def findMany_createdAt_def aggregate_swap_def
  sort_by_volume_def leaderboard_where_def period_name_def upsert_def cache_set_def
  toLowerCase_def toLowerCase_char_def Let_def

lemmas rank_defs = period_start_def period_end_def selected_swaps_def ranked_wallets_def in_period_def

subsection \<open>Token metrics\<close>

lemma findFirst_latest_empty: "findFirst_latest [] = None"
  by (simp add: findFirst_latest_def)

text \<open>
  Claim C7. A metrics tick that finds no swap event changes nothing but the log
  output: no snapshot is added to the metrics table (so none with a rate or price
  obtained from a division by zero), the cache and every other table are as before,
  and the log shows the start line followed by the line that the calculation is
  skipped (or by the error line, when the first query itself is rejected).
\<close>

theorem empty_history_no_snapshot:
  "swapEvents s = [] \<Longrightarrow>
     tokenMetricsTable (calculateMetrics tk s) = tokenMetricsTable s \<and>
     calculateMetrics tk s = s\<lparr>logs := logs (calculateMetrics tk s)\<rparr> \<and>
     (\<forall>m \<in> set (tokenMetricsTable (calculateMetrics tk s)). m \<in> set (tokenMetricsTable s)) \<and>
     logs (calculateMetrics tk s) =
       logs s @ [Info ''Calculating token metrics...'',
                 if tk_findFirst_rejects tk then Error ''Error calculating metrics:'' DbError
                 else Info ''No swap events found, skipping metrics calculation'']"
  by (simp add: calculateMetrics_def calculateMetrics_try_def logger_def findFirst_latest_empty Let_def)

theorem empty_history_no_snapshot_witness:
  "swapEvents fixture_state = [] \<and>
   tokenMetricsTable (calculateMetrics fixture_tick fixture_state) = [] \<and>
   logs (calculateMetrics fixture_tick fixture_state) =
     [Info ''Calculating token metrics...'', Info ''No swap events found, skipping metrics calculation'']"
proof -
  have h: "swapEvents fixture_state = []" "tokenMetricsTable fixture_state = []" "logs fixture_state = []"
    "\<not> tk_findFirst_rejects fixture_tick"
    by (simp_all add: fixture_state_def fixture_tick_def)
  from empty_history_no_snapshot[OF h(1), of fixture_tick] h show ?thesis by simp
qed

subsection \<open>The DAILY window\<close>

lemma daily_bounds_collapse:
  "period_bounds DAILY t = ((0, 1, 0), [t div msPerDay * msPerDay, t div msPerDay * msPerDay])"
  by (simp add: period_bounds_def new_Date_def setHours_def getTime_def Let_def)

lemma daily_selects_midnight_only:
  "\<not> tk_findMany_rejects tk \<Longrightarrow>
   (case period_bounds DAILY (tk_now tk) of
      ((now, periodStart, periodEnd), h) \<Rightarrow>
        findMany_createdAt (getTime periodStart h) (getTime periodEnd h) tbl) =
   filter (\<lambda>r. se_createdAt r = tk_now tk div msPerDay * msPerDay) tbl"
  by (auto simp add: daily_bounds_collapse findMany_createdAt_def getTime_def intro: filter_cong)

text \<open>
  Claim C2 fails on the code. \<^verbatim>\<open>periodEnd\<close> is the same object as \<^verbatim>\<open>now\<close>, and the DAILY
  branch sets that object to midnight with \<^verbatim>\<open>now.setHours(0, 0, 0, 0)\<close>; the query then
  runs with both bounds at midnight. For a tick at noon with swaps of 2 ETH at 09:00
  and 5 ETH at 10:00 the same day, the DAILY calculation selects no row and writes no
  leaderboard entry, while the \<^verbatim>\<open>ALL_TIME\<close> calculation, whose prologue does not touch
  \<^verbatim>\<open>now\<close>, ranks the 5 ETH wallet first and the 2 ETH wallet second.
\<close>

theorem daily_window_ends_at_midnight:
  "tk_now fixture_tick = 1641643200000 \<and>
   map (\<lambda>r. (se_buyer r, se_ethAmount r, se_createdAt r)) (swapEvents fixture_day_state) =
     [(''0xw1'', 2000000000000000000, 1641632400000), (''0xw2'', 5000000000000000000, 1641636000000)] \<and>
   period_bounds DAILY 1641643200000 = ((0, 1, 0), [1641600000000, 1641600000000]) \<and>
   findMany_createdAt 1641600000000 1641600000000 (swapEvents fixture_day_state) = [] \<and>
   fst (calculateLeaderboardForPeriod fixture_tick DAILY fixture_day_state) = None \<and>
   leaderboardTable (snd (calculateLeaderboardForPeriod fixture_tick DAILY fixture_day_state)) = [] \<and>
   map (\<lambda>r. (lb_walletAddress r, lb_rank r))
     (leaderboardTable (snd (calculateLeaderboardForPeriod fixture_tick ALL_TIME fixture_day_state))) =
     [(''0xw2'', 1), (''0xw1'', 2)]"
  by (simp add: fixture_tick_def fixture_day_state_def fixture_swap_def fixture_state_def board_defs)

subsection \<open>Ranks\<close>

lemma aggregate_swap_keys:
  "fst ` set (aggregate_swap acc swap) = {toLowerCase (se_buyer swap)} \<union> fst ` set acc"
  by (simp add: aggregate_swap_def Let_def dom_update)

lemma aggregate_swap_distinct:
  "distinct (map fst acc) \<Longrightarrow> distinct (map fst (aggregate_swap acc swap))"
  by (simp add: aggregate_swap_def Let_def distinct_update)

lemma aggregate_all:
  "distinct (map fst acc) \<Longrightarrow>
     distinct (map fst (foldl aggregate_swap acc swaps)) \<and>
     fst ` set (foldl aggregate_swap acc swaps) = fst ` set acc \<union> (\<lambda>r. toLowerCase (se_buyer r)) ` set swaps"
proof (induction swaps arbitrary: acc)
  case Nil
  then show ?case by simp
next
  case (Cons swap swaps)
  from Cons.IH[OF aggregate_swap_distinct[OF Cons.prems, of swap]]
  show ?case by (auto simp: aggregate_swap_keys)
qed

lemma sort_by_volume_keys:
  "distinct (map fst (sort_by_volume es)) = distinct (map fst es) \<and>
   set (map fst (sort_by_volume es)) = fst ` set es \<and>
   length (sort_by_volume es) = length es"
  by (simp add: sort_by_volume_def distinct_map)

lemma ranked_wallets_distinct:
  "distinct (ranked_wallets tk p s) \<and>
   set (ranked_wallets tk p s) = (\<lambda>r. toLowerCase (se_buyer r)) ` set (selected_swaps tk p s)"
  using aggregate_all[of "[]" "selected_swaps tk p s"] sort_by_volume_keys[of "foldl aggregate_swap [] (selected_swaps tk p s)"]
  by (simp add: ranked_wallets_def)

lemma upsert_other_key:
  assumes "\<not> Q cr" "\<And>r. wh r \<Longrightarrow> \<not> Q r \<and> \<not> Q (upd r)"
  shows "filter Q (upsert wh cr upd tbl) = filter Q tbl"
proof -
  have "filter Q (map (\<lambda>r. if wh r then upd r else r) tbl) = filter Q tbl"
    using assms(2) by (induction tbl) auto
  then show ?thesis using assms(1) by (simp add: upsert_def)
qed

lemma upsert_own_key:
  assumes "wh cr" "\<And>r. wh r \<Longrightarrow> wh (upd r)"
  shows "list_ex wh (upsert wh cr upd tbl)"
  using assms by (auto simp: upsert_def list_ex_iff)

lemma upsert_own_rows:
  assumes "P cr" "\<And>r. wh r \<Longrightarrow> P (upd r) \<and> wh (upd r)" "r \<in> set (upsert wh cr upd tbl)" "wh r"
  shows "P r"
  using assms by (auto simp: upsert_def list_ex_iff split: if_splits)

lemma save_entries_other_key:
  assumes "\<forall>i. \<not> tk_leaderboard_upsert_rejects tk i" "w \<notin> fst ` set es"
  shows "filter (leaderboard_where p w (getTime periodStart h))
           (snd (save_entries tk p h now periodStart periodEnd i es tbl)) =
         filter (leaderboard_where p w (getTime periodStart h)) tbl"
  using assms(2)
proof (induction es arbitrary: i tbl)
  case Nil
  show ?case by simp
next
  case (Cons e es)
  obtain w' st where e: "e = (w', st)" by (cases e)
  from Cons.prems have ne: "w' \<noteq> w" and rest: "w \<notin> fst ` set es" by (auto simp: e)
  show ?case
    unfolding e using assms(1)
    by (simp add: Cons.IH[OF rest]) (rule upsert_other_key, (simp add: leaderboard_where_def ne)+)
qed

lemma save_entries_ok:
  assumes "\<forall>i. \<not> tk_leaderboard_upsert_rejects tk i"
  shows "fst (save_entries tk p h now periodStart periodEnd i es tbl) = None"
  using assms by (induction es arbitrary: i tbl) auto

lemma filter_eq_transfer:
  assumes "filter K S = filter K T" "list_ex K T" "\<forall>r \<in> set T. K r \<longrightarrow> P r"
  shows "list_ex K S \<and> (\<forall>r \<in> set S. K r \<longrightarrow> P r)"
proof -
  have eq: "set (filter K S) = set (filter K T)" using assms(1) by simp
  from assms(2) obtain r where "r \<in> set T" "K r" by (auto simp: list_ex_iff)
  then have "r \<in> set (filter K T)" by simp
  with eq have "r \<in> set (filter K S)" by simp
  then have ex: "list_ex K S" by (auto simp: list_ex_iff)
  have "P r" if "r \<in> set S" "K r" for r
  proof -
    from that have "r \<in> set (filter K S)" by simp
    with eq have "r \<in> set (filter K T)" by simp
    with assms(3) show ?thesis by simp
  qed
  with ex show ?thesis by blast
qed

lemma save_entries_ranks:
  assumes "\<forall>i. \<not> tk_leaderboard_upsert_rejects tk i" "distinct (map fst es)" "j < length es"
  shows "list_ex (leaderboard_where p (fst (es ! j)) (getTime periodStart h))
           (snd (save_entries tk p h now periodStart periodEnd i es tbl)) \<and>
         (\<forall>r \<in> set (snd (save_entries tk p h now periodStart periodEnd i es tbl)).
            leaderboard_where p (fst (es ! j)) (getTime periodStart h) r \<longrightarrow> lb_rank r = i + j + 1)"
  using assms(2,3)
proof (induction es arbitrary: i j tbl)
  case Nil
  then show ?case by simp
next
  case (Cons e es)
  obtain w st where e: "e = (w, st)" by (cases e)
  define K where "K = leaderboard_where p w (getTime periodStart h)"
  define cr where "cr = \<lparr>lb_period = p, lb_walletAddress = w, lb_totalSwaps = totalSwaps st,
              lb_totalVolumeEth = totalVolumeEth st, lb_totalVolumeTokens = totalVolumeTokens st,
              lb_rank = i + 1, lb_periodStart = getTime periodStart h, lb_periodEnd = getTime periodEnd h\<rparr>"
  define upd where "upd = (\<lambda>r::leaderboard. r\<lparr>lb_totalSwaps := totalSwaps st, lb_totalVolumeEth := totalVolumeEth st,
                    lb_totalVolumeTokens := totalVolumeTokens st, lb_rank := i + 1,
                    lb_periodEnd := getTime now h\<rparr>)"
  define tbl1 where "tbl1 = upsert K cr upd tbl"
  define S where "S = snd (save_entries tk p h now periodStart periodEnd (Suc i) es tbl1)"
  have step: "snd (save_entries tk p h now periodStart periodEnd i (e # es) tbl) = S"
    using assms(1) by (simp add: e S_def tbl1_def K_def cr_def upd_def)
  from Cons.prems have d: "distinct (map fst es)" and wn: "w \<notin> fst ` set es" by (auto simp: e)
  show ?case
  proof (cases j)
    case 0
    have keep: "filter K S = filter K tbl1"
      unfolding K_def S_def by (rule save_entries_other_key[OF assms(1) wn])
    have Kcr: "K cr" by (simp add: K_def cr_def leaderboard_where_def)
    have Kupd: "K (upd r)" if "K r" for r using that by (simp add: K_def upd_def leaderboard_where_def)
    have rcr: "lb_rank cr = i + 1" by (simp add: cr_def)
    have rupd: "lb_rank (upd r) = i + 1" for r by (simp add: upd_def)
    have ex: "list_ex K tbl1"
      unfolding tbl1_def using Kcr Kupd by (rule upsert_own_key)
    have rk: "\<forall>r \<in> set tbl1. K r \<longrightarrow> lb_rank r = i + 1"
    proof (intro ballI impI)
      fix r assume r: "r \<in> set tbl1" "K r"
      show "lb_rank r = i + 1"
      proof (rule upsert_own_rows[where P = "\<lambda>r. lb_rank r = i + 1" and wh = K and cr = cr and upd = upd and tbl = tbl])
        show "lb_rank cr = i + 1" by (rule rcr)
        show "lb_rank (upd r) = i + 1 \<and> K (upd r)" if "K r" for r using that rupd Kupd by blast
        show "r \<in> set (upsert K cr upd tbl)" using r(1) by (simp add: tbl1_def)
        show "K r" by (rule r(2))
      qed
    qed
    have w0: "fst ((e # es) ! j) = w" by (simp add: 0 e)
    from filter_eq_transfer[OF keep ex rk] show ?thesis
      unfolding step K_def 0 by (simp add: e)
  next
    case (Suc j')
    with Cons.prems have j': "j' < length es" by simp
    have nth: "(e # es) ! j = es ! j'" by (simp add: Suc)
    from Cons.IH[OF d j', of "Suc i" tbl1] show ?thesis
      unfolding step nth S_def Suc by simp
  qed
qed

lemma save_entries_fresh:
  assumes "\<forall>i. \<not> tk_leaderboard_upsert_rejects tk i" "distinct (map fst es)"
    "\<forall>w \<in> fst ` set es. \<not> list_ex (leaderboard_where p w (getTime periodStart h)) tbl"
  shows "map lb_rank (filter (in_period p (getTime periodStart h))
           (snd (save_entries tk p h now periodStart periodEnd i es tbl))) =
         map lb_rank (filter (in_period p (getTime periodStart h)) tbl) @ [i + 1 ..< i + 1 + length es]"
  using assms(2,3)
proof (induction es arbitrary: i tbl)
  case Nil
  show ?case by simp
next
  case (Cons e es)
  obtain w st where e: "e = (w, st)" by (cases e)
  let ?K = "leaderboard_where p w (getTime periodStart h)"
  let ?cr = "\<lparr>lb_period = p, lb_walletAddress = w, lb_totalSwaps = totalSwaps st,
              lb_totalVolumeEth = totalVolumeEth st, lb_totalVolumeTokens = totalVolumeTokens st,
              lb_rank = i + 1, lb_periodStart = getTime periodStart h, lb_periodEnd = getTime periodEnd h\<rparr>"
  let ?upd = "\<lambda>r. r\<lparr>lb_totalSwaps := totalSwaps st, lb_totalVolumeEth := totalVolumeEth st,
                    lb_totalVolumeTokens := totalVolumeTokens st, lb_rank := i + 1,
                    lb_periodEnd := getTime now h\<rparr>"
  from Cons.prems have d: "distinct (map fst es)" and wn: "w \<notin> fst ` set es"
    and nw: "\<not> list_ex ?K tbl"
    and others: "\<forall>w' \<in> fst ` set es. \<not> list_ex (leaderboard_where p w' (getTime periodStart h)) tbl"
    by (auto simp: e)
  have t1: "upsert ?K ?cr ?upd tbl = tbl @ [?cr]" using nw by (simp add: upsert_def)
  have others1: "\<forall>w' \<in> fst ` set es. \<not> list_ex (leaderboard_where p w' (getTime periodStart h)) (tbl @ [?cr])"
    using others wn by (auto simp: leaderboard_where_def list_ex_iff)
  have step: "snd (save_entries tk p h now periodStart periodEnd i (e # es) tbl) =
        snd (save_entries tk p h now periodStart periodEnd (Suc i) es (tbl @ [?cr]))"
    using assms(1) t1 by (simp add: e)
  have up: "[i + 1 ..< i + 1 + length (e # es)] = (i + 1) # [Suc i + 1 ..< Suc i + 1 + length es]"
    by (simp add: upt_rec)
  have incr: "in_period p (getTime periodStart h) ?cr" by (simp add: in_period_def)
  show ?case
    unfolding step up Cons.IH[OF d others1] using incr by simp
qed

lemma calculateLeaderboardForPeriod_table:
  assumes "\<not> tk_findMany_rejects tk" "\<forall>i. \<not> tk_leaderboard_upsert_rejects tk i"
    and pb: "period_bounds p (tk_now tk) = ((now, periodStart, periodEnd), h)"
  shows "leaderboardTable (snd (calculateLeaderboardForPeriod tk p s)) =
     snd (save_entries tk p h now periodStart periodEnd 0
            (sort_by_volume (foldl aggregate_swap [] (selected_swaps tk p s))) (leaderboardTable s))"
proof -
  define es where "es = sort_by_volume (foldl aggregate_swap [] (selected_swaps tk p s))"
  obtain r tbl where sv: "save_entries tk p h now periodStart periodEnd 0 es (leaderboardTable s) = (r, tbl)"
    by (cases "save_entries tk p h now periodStart periodEnd 0 es (leaderboardTable s)")
  from save_entries_ok[OF assms(2), of p h now periodStart periodEnd 0 es "leaderboardTable s"] sv
  have r: "r = None" by simp
  have sel: "findMany_createdAt (getTime periodStart h) (getTime periodEnd h) (swapEvents s) = selected_swaps tk p s"
    by (simp add: selected_swaps_def period_start_def period_end_def pb)
  show ?thesis
    using assms(1) sv[unfolded r es_def]
    by (simp add: calculateLeaderboardForPeriod_def pb sel Let_def)
qed

lemma period_start_bounds:
  "period_bounds p t = ((now, periodStart, periodEnd), h) \<Longrightarrow> period_start p t = getTime periodStart h"
  by (simp add: period_start_def)

text \<open>
  Claim C5. In a leaderboard calculation for a period in which no database call is
  rejected, the wallets that get an entry are pairwise distinct and are exactly the
  (lower-cased) buyer addresses of the selected swaps, so there are as many as there
  are distinct buyers, N. The wallet at position j of the ranking, counted from 0,
  has an entry under (period, wallet, periodStart) after the tick, and every entry
  under that key carries rank j + 1. When the table held no entry for (period,
  periodStart) before the tick, the ranks stored for (period, periodStart) after it
  are the list 1, 2, ..., N.
\<close>

theorem rank_totality:
  "\<not> tk_findMany_rejects tk \<Longrightarrow> \<forall>i. \<not> tk_leaderboard_upsert_rejects tk i \<Longrightarrow>
     distinct (ranked_wallets tk p s) \<and>
     set (ranked_wallets tk p s) = (\<lambda>r. toLowerCase (se_buyer r)) ` set (selected_swaps tk p s) \<and>
     (\<forall>j < length (ranked_wallets tk p s).
        list_ex (leaderboard_where p (ranked_wallets tk p s ! j) (period_start p (tk_now tk)))
          (leaderboardTable (snd (calculateLeaderboardForPeriod tk p s))) \<and>
        (\<forall>r \<in> set (leaderboardTable (snd (calculateLeaderboardForPeriod tk p s))).
           leaderboard_where p (ranked_wallets tk p s ! j) (period_start p (tk_now tk)) r \<longrightarrow>
           lb_rank r = j + 1)) \<and>
     (\<not> list_ex (in_period p (period_start p (tk_now tk))) (leaderboardTable s) \<longrightarrow>
        map lb_rank (filter (in_period p (period_start p (tk_now tk)))
          (leaderboardTable (snd (calculateLeaderboardForPeriod tk p s)))) =
        [1 ..< length (ranked_wallets tk p s) + 1])"
proof -
  assume ok: "\<not> tk_findMany_rejects tk" "\<forall>i. \<not> tk_leaderboard_upsert_rejects tk i"
  obtain now periodStart periodEnd h where pb: "period_bounds p (tk_now tk) = ((now, periodStart, periodEnd), h)"
    by (metis prod.exhaust)
  define es where "es = sort_by_volume (foldl aggregate_swap [] (selected_swaps tk p s))"
  define T where "T = leaderboardTable (snd (calculateLeaderboardForPeriod tk p s))"
  define PS where "PS = period_start p (tk_now tk)"
  have PS: "PS = getTime periodStart h" by (simp add: PS_def period_start_bounds[OF pb])
  have rw: "ranked_wallets tk p s = map fst es" by (simp add: ranked_wallets_def es_def)
  have T: "T = snd (save_entries tk p h now periodStart periodEnd 0 es (leaderboardTable s))"
    unfolding T_def es_def by (rule calculateLeaderboardForPeriod_table[OF ok pb])
  note dist = ranked_wallets_distinct[of tk p s]
  from dist have d: "distinct (map fst es)" by (simp add: rw)
  have ranks: "list_ex (leaderboard_where p (map fst es ! j) PS) T \<and>
        (\<forall>r \<in> set T. leaderboard_where p (map fst es ! j) PS r \<longrightarrow> lb_rank r = j + 1)"
    if j: "j < length (map fst es)" for j
  proof -
    from j have j': "j < length es" by simp
    from save_entries_ranks[OF ok(2) d j', of p periodStart h now periodEnd 0 "leaderboardTable s"]
    show ?thesis unfolding T PS using j' by simp
  qed
  have fresh: "map lb_rank (filter (in_period p PS) T) = [1 ..< length (map fst es) + 1]"
    if none: "\<not> list_ex (in_period p PS) (leaderboardTable s)"
  proof -
    from none have e: "filter (in_period p PS) (leaderboardTable s) = []"
      by (auto simp: list_ex_iff filter_empty_conv)
    from none have nw: "\<forall>w \<in> fst ` set es. \<not> list_ex (leaderboard_where p w (getTime periodStart h)) (leaderboardTable s)"
      by (auto simp: list_ex_iff in_period_def leaderboard_where_def PS)
    from save_entries_fresh[OF ok(2) d nw, of now periodEnd 0] e
    show ?thesis unfolding T PS by simp
  qed
  from dist ranks fresh show ?thesis
    unfolding rw T_def[symmetric] PS_def[symmetric] by blast
qed

theorem rank_totality_witness:
  "\<not> tk_findMany_rejects fixture_tick \<and> (\<forall>i. \<not> tk_leaderboard_upsert_rejects fixture_tick i) \<and>
   \<not> list_ex (in_period ALL_TIME (period_start ALL_TIME (tk_now fixture_tick))) (leaderboardTable fixture_day_state) \<and>
   ranked_wallets fixture_tick ALL_TIME fixture_day_state = [''0xw2'', ''0xw1''] \<and>
   map lb_rank (filter (in_period ALL_TIME (period_start ALL_TIME (tk_now fixture_tick)))
     (leaderboardTable (snd (calculateLeaderboardForPeriod fixture_tick ALL_TIME fixture_day_state)))) = [1, 2]"
proof -
  have h: "\<not> tk_findMany_rejects fixture_tick" "\<forall>i. \<not> tk_leaderboard_upsert_rejects fixture_tick i"
    by (simp_all add: fixture_tick_def)
  have n: "\<not> list_ex (in_period ALL_TIME (period_start ALL_TIME (tk_now fixture_tick))) (leaderboardTable fixture_day_state)"
    by (simp add: fixture_day_state_def fixture_state_def)
  have w: "ranked_wallets fixture_tick ALL_TIME fixture_day_state = [''0xw2'', ''0xw1'']"
    by (simp add: rank_defs fixture_tick_def fixture_day_state_def fixture_swap_def fixture_state_def board_defs)
  have u: "[1 ..< length [''0xw2'', ''0xw1''] + 1] = [1, 2]" by (simp add: upt_rec)
  from rank_totality[OF h, of ALL_TIME fixture_day_state] n
  have "map lb_rank (filter (in_period ALL_TIME (period_start ALL_TIME (tk_now fixture_tick)))
     (leaderboardTable (snd (calculateLeaderboardForPeriod fixture_tick ALL_TIME fixture_day_state)))) =
     [1 ..< length (ranked_wallets fixture_tick ALL_TIME fixture_day_state) + 1]"
    by blast
  then have "map lb_rank (filter (in_period ALL_TIME (period_start ALL_TIME (tk_now fixture_tick)))
     (leaderboardTable (snd (calculateLeaderboardForPeriod fixture_tick ALL_TIME fixture_day_state)))) = [1, 2]"
    unfolding w u .
  with h n w show ?thesis by blast
qed

end
